theory Spec2Isabelle
  imports Complex_Main "HOL-Library.Log_Nat"
begin

section \<open>The document store\<close>

text \<open>
  The repository talks to a remote document store. A document id, a user id and a topic id
  are names of documents; the model takes them as natural numbers, ordered the way the
  store orders document names. A point in time (\<open>serverTimestamp()\<close>, \<open>new Date()\<close>) is a
  natural number that the caller of an operation supplies as \<open>now\<close>; the id that the store
  generates for a new document (\<open>addDoc\<close>, \<open>doc(collection(...))\<close>) is supplied as \<open>newId\<close>.
  Store calls themselves never fail in the model.
\<close>

type_synonym docId = nat
type_synonym userId = nat
type_synonym timestamp = nat

text \<open>
  A collection that the code queries is the list of its documents in the order in which a
  query returns them (ascending document id). \<open>getDoc\<close> reads one document,
  \<open>getDocs\<close> is a query with an equality filter, \<open>setDoc\<close> writes a document under an id
  (replacing the document of that id, if any) and \<open>updateDoc\<close> changes the fields of an
  existing document.
\<close>

type_synonym 'a collection = "(docId \<times> 'a) list"

definition getDoc :: "'a collection \<Rightarrow> docId \<Rightarrow> 'a option" where
  "getDoc c k = map_of c k"

definition getDocs :: "('a \<Rightarrow> bool) \<Rightarrow> 'a collection \<Rightarrow> 'a collection" where
  "getDocs P c = filter (\<lambda>p. P (snd p)) c"

definition setDoc :: "docId \<Rightarrow> 'a \<Rightarrow> 'a collection \<Rightarrow> 'a collection" where
  "setDoc k d c = filter (\<lambda>p. fst p < k) c @ [(k, d)] @ filter (\<lambda>p. k < fst p) c"

definition updateDoc :: "docId \<Rightarrow> ('a \<Rightarrow> 'a) \<Rightarrow> 'a collection \<Rightarrow> 'a collection" where
  "updateDoc k f c = map (\<lambda>p. if fst p = k then (fst p, f (snd p)) else p) c"

text \<open>
  \<open>arrayRemove\<close> and \<open>arrayUnion\<close> on an array field of a document; \<open>None\<close> is a field
  that the document does not have, which both operations create.
\<close>

definition arrayRemove :: "'a \<Rightarrow> 'a list option \<Rightarrow> 'a list option" where
  "arrayRemove x field = (case field of None \<Rightarrow> Some [] | Some xs \<Rightarrow> Some (removeAll x xs))"

definition arrayUnion :: "'a \<Rightarrow> 'a list option \<Rightarrow> 'a list option" where
  "arrayUnion x field =
     (case field of
        None \<Rightarrow> Some [x]
      | Some xs \<Rightarrow> Some (if x \<in> set xs then xs else xs @ [x]))"

section \<open>Strings\<close>

text \<open>
  A string is the list of its code units; the model covers the code units below 256
  (ASCII and Latin-1), which is what \<open>char\<close> holds. \<open>toLowerCase\<close> maps A-Z and the
  accented capitals 192-222 (but not the multiplication sign 215) 32 places up; \<open>trim\<close>
  removes white space and line terminators (9-13, 32 and 160) at both ends.
\<close>

definition toLowerChar :: "char \<Rightarrow> char" where
  "toLowerChar c =
     (let n = (of_char c :: nat)
      in if (65 \<le> n \<and> n \<le> 90) \<or> (192 \<le> n \<and> n \<le> 222 \<and> n \<noteq> 215)
         then char_of (n + 32) else c)"

definition toLowerCase :: "string \<Rightarrow> string" where
  "toLowerCase s = map toLowerChar s"

definition isWhiteSpace :: "char \<Rightarrow> bool" where
  "isWhiteSpace c = (let n = (of_char c :: nat) in (9 \<le> n \<and> n \<le> 13) \<or> n = 32 \<or> n = 160)"

definition trim :: "string \<Rightarrow> string" where
  "trim s = rev (dropWhile isWhiteSpace (rev (dropWhile isWhiteSpace s)))"

text \<open>A field that the code writes only when its value is truthy (a non-empty string).\<close>

definition ifTruthy :: "string \<Rightarrow> string option" where
  "ifTruthy s = (if s = [] then None else Some s)"

section \<open>Numbers\<close>

text \<open>
  An amount or a total of experience points is a JavaScript number: an IEEE 754 double,
  that is a rational on the grid of doubles, an infinity or \<open>NaN\<close> (the two zeros are one
  value here). A finite double is an integer of magnitude below \<open>2^53\<close> times a power of
  two of exponent at least -1074, and is below \<open>2^1024\<close> in magnitude.

  \<open>exponentOf q\<close> is the exponent \<open>e\<close> of the binade of \<open>q\<close>, with
  \<open>2^e \<le> |q| < 2^(e+1)\<close>; \<open>ulp q\<close> is the distance of neighbouring doubles there (the
  exponent is no less than -1022, below which the doubles are subnormal);
  \<open>roundFinite\<close> rounds a rational to the nearest multiple of \<open>ulp\<close>, ties to the even
  one, and \<open>toNumber\<close> is the double that an exact result is rounded to, an infinity when
  the rounded magnitude reaches \<open>2^1024\<close>.
\<close>

datatype number = Finite rat | PlusInfinity | MinusInfinity | NaN

definition exponentOf :: "rat \<Rightarrow> int" where
  "exponentOf q =
     (if 1 \<le> \<bar>q\<bar> then bitlen \<lfloor>\<bar>q\<bar>\<rfloor> - 1 else - bitlen (\<lceil>1 / \<bar>q\<bar>\<rceil> - 1))"

definition ulp :: "rat \<Rightarrow> rat" where
  "ulp q = 2 powi (max (exponentOf q) (- 1022) - 52)"

definition roundHalfEven :: "rat \<Rightarrow> int" where
  "roundHalfEven x =
     (let f = \<lfloor>x\<rfloor>
      in if x - of_int f < 1 / 2 then f
         else if 1 / 2 < x - of_int f then f + 1
         else if even f then f else f + 1)"

definition roundFinite :: "rat \<Rightarrow> rat" where
  "roundFinite q = of_int (roundHalfEven (q / ulp q)) * ulp q"

definition toNumber :: "rat \<Rightarrow> number" where
  "toNumber q =
     (let r = roundFinite q
      in if 2 ^ 1024 \<le> r then PlusInfinity
         else if r \<le> - (2 ^ 1024) then MinusInfinity
         else Finite r)"

text \<open>
  The grid of the finite doubles: an integer of magnitude below \<open>2^53\<close> times a power
  of two of exponent at least -1074.
\<close>

definition onGrid :: "rat \<Rightarrow> bool" where
  "onGrid q = (\<exists>m k. q = of_int m * 2 powi k \<and> \<bar>m\<bar> < 2 ^ 53 \<and> - 1074 \<le> k)"

text \<open>A value of the model is a JavaScript number when rounding leaves it as it is.\<close>

definition isNumber :: "number \<Rightarrow> bool" where
  "isNumber x = (case x of Finite q \<Rightarrow> toNumber q = Finite q | _ \<Rightarrow> True)"

text \<open>The operators \<open>+\<close> and \<open><=\<close> on numbers, and the numbers that \<open>||\<close> passes over.\<close>

fun numberPlus :: "number \<Rightarrow> number \<Rightarrow> number" where
  "numberPlus NaN y = NaN"
| "numberPlus x NaN = NaN"
| "numberPlus PlusInfinity MinusInfinity = NaN"
| "numberPlus MinusInfinity PlusInfinity = NaN"
| "numberPlus PlusInfinity y = PlusInfinity"
| "numberPlus x PlusInfinity = PlusInfinity"
| "numberPlus MinusInfinity y = MinusInfinity"
| "numberPlus x MinusInfinity = MinusInfinity"
| "numberPlus (Finite a) (Finite b) = toNumber (a + b)"

fun numberLe :: "number \<Rightarrow> number \<Rightarrow> bool" where
  "numberLe NaN y = False"
| "numberLe x NaN = False"
| "numberLe MinusInfinity y = True"
| "numberLe x PlusInfinity = True"
| "numberLe PlusInfinity y = False"
| "numberLe x MinusInfinity = False"
| "numberLe (Finite a) (Finite b) = (a \<le> b)"

definition falsy :: "number \<Rightarrow> bool" where
  "falsy x = (x = NaN \<or> x = Finite 0)"

text \<open>
  \<open>increment\<close> on a numeric field, as the client reads it back: the sum in double
  arithmetic; a missing field is set to the operand.
\<close>

definition increment :: "number \<Rightarrow> number option \<Rightarrow> number option" where
  "increment n field = (case field of None \<Rightarrow> Some n | Some x \<Rightarrow> Some (numberPlus x n))"

section \<open>Documents\<close>

text \<open>The signed-in user of \<open>auth.currentUser\<close>; an empty string is a missing name.\<close>

record authUser =
  uid :: userId
  displayName :: string
  email :: string

text \<open>
  The errors the code throws, named after their messages: \<open>User must be authenticated to
  perform this action\<close>, \<open>Challenge not found\<close>, \<open>Card not found\<close>, \<open>Access denied: This card
  belongs to another user\<close>, \<open>You can only edit cards shared with you\<close>.
\<close>

datatype error = NotAuthenticated | ChallengeNotFound | CardNotFound | AccessDenied | NotRecipient

datatype recipientStatus = Pending | Completed | Rejected

record recipient =
  r_userId :: userId
  r_status :: recipientStatus
  r_score :: "int option"
  r_userAnswer :: "string option"
  r_completedAt :: "timestamp option"
  r_notified :: bool

text \<open>The card snapshot embedded in a challenge; an empty string is a missing field.\<close>

record challengeCard =
  cc_id :: docId
  cc_vocabulary :: string
  cc_definition :: string
  cc_sentence :: string
  cc_imageUrl :: string
  cc_pronunciation :: string
  cc_topicId :: "docId option"
  cc_topicName :: string

record challenge =
  ch_senderId :: userId
  ch_senderName :: string
  ch_card :: challengeCard
  ch_recipients :: "recipient list"
  ch_createdAt :: timestamp
  ch_expiresAt :: timestamp
  ch_updatedAt :: "timestamp option"

record completedCard =
  cd_vocabulary :: string
  cd_definition :: string
  cd_imageUrl :: "string option"
  cd_topicName :: "string option"
  cd_sentence :: "string option"
  cd_pronunciation :: "string option"

text \<open>A document of \<open>users/{uid}/completedChallenges\<close>.\<close>

record completedChallenge =
  cr_id :: docId
  cr_challengeId :: docId
  cr_senderName :: string
  cr_senderId :: userId
  cr_card :: completedCard
  cr_userAnswer :: string
  cr_userScore :: int
  cr_isCorrect :: bool
  cr_completedAt :: timestamp
  cr_createdAt :: timestamp

text \<open>A document of \<open>users\<close>, with the fields that the operations below read or write.\<close>

record userDoc =
  u_email :: string
  u_displayName :: string
  u_totalXP :: "number option"
  u_pendingChallenges :: "docId list option"
  u_completedChallenges :: "docId list option"
  u_createdAt :: "timestamp option"
  u_updatedAt :: "timestamp option"

text \<open>A document of \<open>sharedCards\<close>.\<close>

record sharedCard =
  sc_vocabulary :: string
  sc_definition :: string
  sc_sentence :: string
  sc_imageUrl :: string
  sc_pronunciation :: string
  sc_topicId :: "docId option"
  sc_addedFrom :: string
  sc_senderId :: userId
  sc_recipientId :: userId
  sc_sharedCardId :: "docId option"
  sc_createdAt :: timestamp
  sc_lastAddedAt :: timestamp
  sc_updatedAt :: "timestamp option"
  sc_lastEditedBy :: "userId option"
  sc_lastEditedAt :: "timestamp option"

text \<open>A document of the legacy collection \<open>cards\<close>.\<close>

record card =
  lc_vocabulary :: string
  lc_definition :: string
  lc_sentence :: string
  lc_imageUrl :: string
  lc_pronunciation :: string
  lc_userId :: "userId option"
  lc_topicId :: "docId option"
  lc_createdAt :: timestamp
  lc_updatedAt :: timestamp

text \<open>A document of \<open>users/{uid}/myCards\<close>: a reference to a shared card.\<close>

record myCard =
  mc_sharedCardId :: "docId option"
  mc_topicId :: "docId option"
  mc_addedAt :: timestamp

datatype requestStatus = RequestPending | RequestAccepted | RequestRejected

record friendRequest =
  fr_fromUserId :: userId
  fr_fromDisplayName :: string
  fr_fromEmail :: string
  fr_toUserId :: userId
  fr_toDisplayName :: string
  fr_toEmail :: string
  fr_status :: requestStatus
  fr_createdAt :: timestamp

text \<open>
  The database: \<open>challenges\<close> and \<open>users\<close> are read by id only and are maps; the other
  collections are queried. The two subcollections are indexed by the user they belong to.
\<close>

record db =
  challenges :: "docId \<rightharpoonup> challenge"
  users :: "userId \<rightharpoonup> userDoc"
  completedChallenges :: "userId \<Rightarrow> completedChallenge collection"
  sharedCards :: "sharedCard collection"
  cards :: "card collection"
  myCards :: "userId \<Rightarrow> myCard collection"
  friendRequests :: "friendRequest collection"

section \<open>Operations of \<open>firebase/firestore.js\<close>\<close>

definition getCurrentUserId :: "authUser option \<Rightarrow> error + userId" where
  "getCurrentUserId auth = (case auth of None \<Rightarrow> Inl NotAuthenticated | Some user \<Rightarrow> Inr (uid user))"

subsection \<open>Challenges\<close>

record gradeResult =
  isCorrect :: bool
  score :: int
  correctAnswer :: string

definition completeChallenge ::
  "authUser option \<Rightarrow> timestamp \<Rightarrow> docId \<Rightarrow> docId \<Rightarrow> string \<Rightarrow> db \<Rightarrow> error + (gradeResult \<times> db)"
where
  "completeChallenge auth now newId challengeId userAnswer d =
     (case getCurrentUserId auth of
        Inl e \<Rightarrow> Inl e
      | Inr userId \<Rightarrow>
         (case challenges d challengeId of
            None \<Rightarrow> Inl ChallengeNotFound
          | Some challengeData \<Rightarrow>
             (let correctAnswer = cc_vocabulary (ch_card challengeData);
                  isCorrect = (trim (toLowerCase userAnswer) = trim (toLowerCase correctAnswer));
                  score = (if isCorrect then 100 else 0);
                  recipients =
                    map (\<lambda>recipient.
                          if r_userId recipient = userId
                          then recipient\<lparr>r_status := Completed, r_score := Some score,
                                 r_userAnswer := Some userAnswer, r_completedAt := Some now\<rparr>
                          else recipient)
                      (ch_recipients challengeData);
                  d1 = d\<lparr>challenges := (challenges d)(challengeId \<mapsto>
                          challengeData\<lparr>ch_recipients := recipients, ch_updatedAt := Some now\<rparr>)\<rparr>;
                  cardData =
                    \<lparr>cd_vocabulary = cc_vocabulary (ch_card challengeData),
                     cd_definition = cc_definition (ch_card challengeData),
                     cd_imageUrl = ifTruthy (cc_imageUrl (ch_card challengeData)),
                     cd_topicName = ifTruthy (cc_topicName (ch_card challengeData)),
                     cd_sentence = ifTruthy (cc_sentence (ch_card challengeData)),
                     cd_pronunciation = ifTruthy (cc_pronunciation (ch_card challengeData))\<rparr>;
                  d2 = d1\<lparr>completedChallenges := (completedChallenges d1)(userId :=
                          setDoc newId
                            \<lparr>cr_id = newId, cr_challengeId = challengeId,
                             cr_senderName = ch_senderName challengeData,
                             cr_senderId = ch_senderId challengeData,
                             cr_card = cardData, cr_userAnswer = userAnswer,
                             cr_userScore = score, cr_isCorrect = isCorrect,
                             cr_completedAt = now, cr_createdAt = now\<rparr>
                            (completedChallenges d1 userId))\<rparr>;
                  d3 = (case users d2 userId of
                          None \<Rightarrow> d2
                        | Some u \<Rightarrow>
                            d2\<lparr>users := (users d2)(userId \<mapsto>
                              u\<lparr>u_pendingChallenges := arrayRemove challengeId (u_pendingChallenges u),
                                u_completedChallenges := arrayUnion challengeId (u_completedChallenges u)\<rparr>)\<rparr>)
              in Inr (\<lparr>isCorrect = isCorrect, score = score, correctAnswer = correctAnswer\<rparr>, d3))))"

definition rejectChallenge :: "authUser option \<Rightarrow> timestamp \<Rightarrow> docId \<Rightarrow> db \<Rightarrow> error + db" where
  "rejectChallenge auth now challengeId d =
     (case getCurrentUserId auth of
        Inl e \<Rightarrow> Inl e
      | Inr userId \<Rightarrow>
         (case challenges d challengeId of
            None \<Rightarrow> Inl ChallengeNotFound
          | Some challengeData \<Rightarrow>
             (let recipients =
                    map (\<lambda>recipient.
                          if r_userId recipient = userId
                          then recipient\<lparr>r_status := Rejected, r_completedAt := Some now\<rparr>
                          else recipient)
                      (ch_recipients challengeData)
              in Inr (d\<lparr>challenges := (challenges d)(challengeId \<mapsto>
                        challengeData\<lparr>ch_recipients := recipients, ch_updatedAt := Some now\<rparr>)\<rparr>))))"

subsection \<open>Shared cards\<close>

text \<open>The argument of \<open>addSharedCardFromChallenge\<close>; an empty \<open>addedFrom\<close> is a missing one.\<close>

record sharedCardRequest =
  rq_card :: challengeCard
  rq_senderId :: userId
  rq_recipientId :: userId
  rq_addedFrom :: string

definition addSharedCardFromChallenge ::
  "timestamp \<Rightarrow> docId \<Rightarrow> sharedCardRequest \<Rightarrow> db \<Rightarrow> docId \<times> db"
where
  "addSharedCardFromChallenge now newId challengeData d =
     (case getDocs (\<lambda>c. sc_vocabulary c = cc_vocabulary (rq_card challengeData) \<and>
                         sc_definition c = cc_definition (rq_card challengeData) \<and>
                         sc_recipientId c = rq_recipientId challengeData)
             (sharedCards d) of
        doc0 # _ \<Rightarrow> (fst doc0, d)
      | [] \<Rightarrow>
          (let newCard =
                 \<lparr>sc_vocabulary = cc_vocabulary (rq_card challengeData),
                  sc_definition = cc_definition (rq_card challengeData),
                  sc_sentence = cc_sentence (rq_card challengeData),
                  sc_imageUrl = cc_imageUrl (rq_card challengeData),
                  sc_pronunciation = cc_pronunciation (rq_card challengeData),
                  sc_topicId = cc_topicId (rq_card challengeData),
                  sc_addedFrom = (if rq_addedFrom challengeData = [] then ''challenge''
                                  else rq_addedFrom challengeData),
                  sc_senderId = rq_senderId challengeData,
                  sc_recipientId = rq_recipientId challengeData,
                  sc_sharedCardId = None,
                  sc_createdAt = now, sc_lastAddedAt = now,
                  sc_updatedAt = None, sc_lastEditedBy = None, sc_lastEditedAt = None\<rparr>
           in (newId, d\<lparr>sharedCards := setDoc newId newCard (sharedCards d)\<rparr>)))"

subsection \<open>Reading cards\<close>

text \<open>
  A card as \<open>getCards\<close> returns it: for a reference of \<open>myCards\<close> the fields of the
  reference overlaid with those of the shared card, for a legacy card its id and fields.
  A document of \<open>sharedCards\<close> always has a \<open>topicId\<close> field (possibly empty), which
  overrides that of the reference.
\<close>

record cardView =
  v_id :: docId
  v_sharedCardId :: "docId option"
  v_topicId :: "docId option"
  v_addedAt :: "timestamp option"
  v_vocabulary :: string
  v_definition :: string
  v_sentence :: string
  v_imageUrl :: string
  v_pronunciation :: string
  v_userId :: "userId option"
  v_senderId :: "userId option"
  v_recipientId :: "userId option"

definition sharedView :: "docId \<Rightarrow> myCard \<Rightarrow> sharedCard \<Rightarrow> cardView" where
  "sharedView k userCard c =
     \<lparr>v_id = k,
      v_sharedCardId = (case sc_sharedCardId c of None \<Rightarrow> mc_sharedCardId userCard | Some s \<Rightarrow> Some s),
      v_topicId = sc_topicId c,
      v_addedAt = Some (mc_addedAt userCard),
      v_vocabulary = sc_vocabulary c, v_definition = sc_definition c,
      v_sentence = sc_sentence c, v_imageUrl = sc_imageUrl c,
      v_pronunciation = sc_pronunciation c,
      v_userId = None, v_senderId = Some (sc_senderId c),
      v_recipientId = Some (sc_recipientId c)\<rparr>"

definition legacyView :: "docId \<Rightarrow> card \<Rightarrow> cardView" where
  "legacyView k c =
     \<lparr>v_id = k, v_sharedCardId = None, v_topicId = lc_topicId c, v_addedAt = None,
      v_vocabulary = lc_vocabulary c, v_definition = lc_definition c,
      v_sentence = lc_sentence c, v_imageUrl = lc_imageUrl c,
      v_pronunciation = lc_pronunciation c,
      v_userId = lc_userId c, v_senderId = None, v_recipientId = None\<rparr>"

text \<open>
  \<open>getUserCards\<close> never throws: every error, also that of a missing user, is caught and
  an empty list returned. A reference without \<open>sharedCardId\<close> or to a missing shared card
  gives \<open>null\<close>, which is filtered out.
\<close>

definition getUserCards :: "authUser option \<Rightarrow> docId option \<Rightarrow> db \<Rightarrow> cardView list" where
  "getUserCards auth topicId d =
     (case getCurrentUserId auth of
        Inl e \<Rightarrow> []
      | Inr userId \<Rightarrow>
         (let userCardsSnap =
                (case topicId of
                   None \<Rightarrow> myCards d userId
                 | Some t \<Rightarrow> getDocs (\<lambda>r. mc_topicId r = Some t) (myCards d userId))
          in if userCardsSnap = [] then []
             else List.map_filter
                    (\<lambda>userCard.
                       case mc_sharedCardId (snd userCard) of
                         None \<Rightarrow> None
                       | Some s \<Rightarrow>
                          (case getDoc (sharedCards d) s of
                             None \<Rightarrow> None
                           | Some c \<Rightarrow> Some (sharedView (fst userCard) (snd userCard) c)))
                    userCardsSnap))"

definition getCards :: "authUser option \<Rightarrow> docId option \<Rightarrow> db \<Rightarrow> error + cardView list" where
  "getCards auth topicId d =
     (case getCurrentUserId auth of
        Inl e \<Rightarrow> Inl e
      | Inr userId \<Rightarrow>
         (let sharedCards = getUserCards auth topicId d
          in if length sharedCards > 0 then Inr sharedCards
             else Inr (map (\<lambda>p. legacyView (fst p) (snd p))
                        (case topicId of
                           Some t \<Rightarrow> getDocs (\<lambda>c. lc_topicId c = Some t) (cards d)
                         | None \<Rightarrow> getDocs (\<lambda>c. lc_userId c = Some userId) (cards d)))))"

subsection \<open>Updating cards\<close>

text \<open>The fields to update (\<open>updatedData\<close>); \<open>None\<close> is a field that the patch leaves alone.\<close>

record cardPatch =
  p_vocabulary :: "string option"
  p_definition :: "string option"
  p_sentence :: "string option"
  p_pronunciation :: "string option"
  p_imageUrl :: "string option"

definition patched :: "'a option \<Rightarrow> 'a \<Rightarrow> 'a" where
  "patched new old = (case new of None \<Rightarrow> old | Some v \<Rightarrow> v)"

definition editShared :: "userId \<Rightarrow> timestamp \<Rightarrow> cardPatch \<Rightarrow> sharedCard \<Rightarrow> sharedCard" where
  "editShared userId now updatedData c =
     c\<lparr>sc_vocabulary := patched (p_vocabulary updatedData) (sc_vocabulary c),
       sc_definition := patched (p_definition updatedData) (sc_definition c),
       sc_sentence := patched (p_sentence updatedData) (sc_sentence c),
       sc_pronunciation := patched (p_pronunciation updatedData) (sc_pronunciation c),
       sc_imageUrl := patched (p_imageUrl updatedData) (sc_imageUrl c),
       sc_updatedAt := Some now, sc_lastEditedBy := Some userId, sc_lastEditedAt := Some now\<rparr>"

definition editLegacy :: "timestamp \<Rightarrow> cardPatch \<Rightarrow> card \<Rightarrow> card" where
  "editLegacy now updatedData c =
     c\<lparr>lc_vocabulary := patched (p_vocabulary updatedData) (lc_vocabulary c),
       lc_definition := patched (p_definition updatedData) (lc_definition c),
       lc_sentence := patched (p_sentence updatedData) (lc_sentence c),
       lc_pronunciation := patched (p_pronunciation updatedData) (lc_pronunciation c),
       lc_imageUrl := patched (p_imageUrl updatedData) (lc_imageUrl c),
       lc_updatedAt := now\<rparr>"

text \<open>
  \<open>updateSharedCard\<close>: a shared card found by document id is updated for its recipient
  only; one found through its field \<open>sharedCardId\<close> is updated unchecked; when neither
  lookup finds a card the function returns normally, without a change.
\<close>

definition updateSharedCard ::
  "authUser option \<Rightarrow> timestamp \<Rightarrow> docId \<Rightarrow> cardPatch \<Rightarrow> db \<Rightarrow> error + db"
where
  "updateSharedCard auth now sharedCardId updatedData d =
     (case getCurrentUserId auth of
        Inl e \<Rightarrow> Inl e
      | Inr userId \<Rightarrow>
         (case getDoc (sharedCards d) sharedCardId of
            None \<Rightarrow>
              (case getDocs (\<lambda>c. sc_sharedCardId c = Some sharedCardId) (sharedCards d) of
                 [] \<Rightarrow> Inr d
               | foundDoc # _ \<Rightarrow>
                   Inr (d\<lparr>sharedCards :=
                          updateDoc (fst foundDoc) (editShared userId now updatedData) (sharedCards d)\<rparr>))
          | Some cardData \<Rightarrow>
              if sc_recipientId cardData \<noteq> userId then Inl NotRecipient
              else Inr (d\<lparr>sharedCards :=
                          updateDoc sharedCardId (editShared userId now updatedData) (sharedCards d)\<rparr>)))"

text \<open>
  \<open>updateCard\<close> calls \<open>updateSharedCard\<close> and returns when that returns normally; only
  when it throws does the legacy update run.
\<close>

definition updateCard ::
  "authUser option \<Rightarrow> timestamp \<Rightarrow> docId \<Rightarrow> cardPatch \<Rightarrow> db \<Rightarrow> error + db"
where
  "updateCard auth now cardId updatedData d =
     (case getCurrentUserId auth of
        Inl e \<Rightarrow> Inl e
      | Inr userId \<Rightarrow>
         (case updateSharedCard auth now cardId updatedData d of
            Inr d' \<Rightarrow> Inr d'
          | Inl e \<Rightarrow>
             (case getDoc (cards d) cardId of
                None \<Rightarrow> Inl CardNotFound
              | Some cardData \<Rightarrow>
                  if lc_userId cardData \<noteq> Some userId then Inl AccessDenied
                  else Inr (d\<lparr>cards := updateDoc cardId (editLegacy now updatedData) (cards d)\<rparr>))))"

subsection \<open>Experience points\<close>

definition addUserXP :: "authUser option \<Rightarrow> timestamp \<Rightarrow> number \<Rightarrow> db \<Rightarrow> error + db" where
  "addUserXP auth now xpAmount d =
     (case getCurrentUserId auth of
        Inl e \<Rightarrow> Inl e
      | Inr userId \<Rightarrow>
         (case users d userId of
            Some u \<Rightarrow>
              Inr (d\<lparr>users := (users d)(userId \<mapsto>
                     u\<lparr>u_totalXP := increment xpAmount (u_totalXP u), u_updatedAt := Some now\<rparr>)\<rparr>)
          | None \<Rightarrow>
              Inr (d\<lparr>users := (users d)(userId \<mapsto>
                     \<lparr>u_email = (case auth of None \<Rightarrow> [] | Some currentUser \<Rightarrow> email currentUser),
                      u_displayName = (case auth of None \<Rightarrow> [] | Some currentUser \<Rightarrow> displayName currentUser),
                      u_totalXP = Some xpAmount,
                      u_pendingChallenges = None, u_completedChallenges = None,
                      u_createdAt = Some now, u_updatedAt = Some now\<rparr>)\<rparr>)))"

text \<open>
  \<open>getUserXP\<close> catches every error and returns 0; \<open>totalXP || 0\<close> is 0 for a missing
  field and for the falsy numbers 0 and \<open>NaN\<close>, and the field's value otherwise.
\<close>

definition getUserXP :: "authUser option \<Rightarrow> db \<Rightarrow> number" where
  "getUserXP auth d =
     (case getCurrentUserId auth of
        Inl e \<Rightarrow> Finite 0
      | Inr userId \<Rightarrow>
         (case users d userId of
            Some u \<Rightarrow>
              (case u_totalXP u of
                 None \<Rightarrow> Finite 0
               | Some xp \<Rightarrow> if falsy xp then Finite 0 else xp)
          | None \<Rightarrow> Finite 0))"

text \<open>A sequence of \<open>addUserXP\<close> calls, each with its time and amount; the first error ends it.\<close>

fun addUserXPs :: "authUser option \<Rightarrow> (timestamp \<times> number) list \<Rightarrow> db \<Rightarrow> error + db" where
  "addUserXPs auth [] d = Inr d"
| "addUserXPs auth (call # calls) d =
     (case addUserXP auth (fst call) (snd call) d of
        Inl e \<Rightarrow> Inl e
      | Inr d' \<Rightarrow> addUserXPs auth calls d')"

section \<open>Friend requests (\<open>app/(tabs)/profile.tsx\<close>)\<close>

text \<open>
  \<open>sendFriendRequest\<close> throws nothing: it returns silently without a user, alerts
  \<open>Already Sent\<close> when the query for a pending request from the user to \<open>toUserId\<close> is not
  empty, and otherwise adds a pending request and alerts \<open>Success\<close>.
\<close>

datatype sendOutcome = NoUser | AlreadySent | RequestSent

definition sendFriendRequest ::
  "authUser option \<Rightarrow> timestamp \<Rightarrow> docId \<Rightarrow> userId \<Rightarrow> string \<Rightarrow> string \<Rightarrow> db \<Rightarrow> sendOutcome \<times> db"
where
  "sendFriendRequest user now newId toUserId toDisplayName toEmail d =
     (case user of
        None \<Rightarrow> (NoUser, d)
      | Some u \<Rightarrow>
         (let existingSnapshot =
                getDocs (\<lambda>r. fr_fromUserId r = uid u \<and> fr_toUserId r = toUserId \<and>
                              fr_status r = RequestPending)
                  (friendRequests d)
          in if existingSnapshot \<noteq> [] then (AlreadySent, d)
             else
               (let requestData =
                      \<lparr>fr_fromUserId = uid u,
                       fr_fromDisplayName =
                         (if displayName u \<noteq> [] then displayName u
                          else if email u \<noteq> [] then email u else ''Unknown User''),
                       fr_fromEmail = email u,
                       fr_toUserId = toUserId, fr_toDisplayName = toDisplayName,
                       fr_toEmail = toEmail, fr_status = RequestPending, fr_createdAt = now\<rparr>
                in (RequestSent, d\<lparr>friendRequests := setDoc newId requestData (friendRequests d)\<rparr>))))"

section \<open>Notions of the specification\<close>

text \<open>
  The grading rule in the specification's words: the answer and the vocabulary term are
  trimmed of surrounding white space and then compared without regard to case. (The code
  lowers the case first and trims afterwards.)
\<close>

definition matchesIgnoringCase :: "string \<Rightarrow> string \<Rightarrow> bool" where
  "matchesIgnoringCase userAnswer term = (toLowerCase (trim userAnswer) = toLowerCase (trim term))"

text \<open>
  The triple by which materializing a shared card is idempotent: vocabulary, definition
  and recipient.
\<close>

definition hasTriple :: "sharedCardRequest \<Rightarrow> sharedCard \<Rightarrow> bool" where
  "hasTriple challengeData c =
     (sc_vocabulary c = cc_vocabulary (rq_card challengeData) \<and>
      sc_definition c = cc_definition (rq_card challengeData) \<and>
      sc_recipientId c = rq_recipientId challengeData)"

text \<open>A pending friend request from one user to another exists.\<close>

definition pendingRequest :: "db \<Rightarrow> userId \<Rightarrow> userId \<Rightarrow> bool" where
  "pendingRequest d fromId toId =
     list_ex (\<lambda>p. fr_fromUserId (snd p) = fromId \<and> fr_toUserId (snd p) = toId \<and>
                    fr_status (snd p) = RequestPending)
       (friendRequests d)"

text \<open>
  The two sources of a user's cards: (a) the cards that the user created directly
  (\<open>userId\<close> of a legacy card), and (b) the cards reachable through the user's ownership
  references of \<open>myCards\<close>, restricted to a topic when a filter is given.
\<close>

definition createdCards :: "db \<Rightarrow> userId \<Rightarrow> cardView list" where
  "createdCards d u =
     map (\<lambda>p. legacyView (fst p) (snd p)) (filter (\<lambda>p. lc_userId (snd p) = Some u) (cards d))"

definition referencedCards :: "db \<Rightarrow> userId \<Rightarrow> docId option \<Rightarrow> cardView list" where
  "referencedCards d u topicId =
     concat (map (\<lambda>p. case mc_sharedCardId (snd p) of
                         None \<Rightarrow> []
                       | Some s \<Rightarrow>
                          (case map_of (sharedCards d) s of
                             None \<Rightarrow> []
                           | Some c \<Rightarrow> [sharedView (fst p) (snd p) c]))
               (filter (\<lambda>p. case topicId of None \<Rightarrow> True | Some t \<Rightarrow> mc_topicId (snd p) = Some t)
                  (myCards d u)))"

text \<open>
  The total that the store holds for a user, if any, and the condition that it is a
  JavaScript number, as every total that the client has written is.
\<close>

definition storedXP :: "db \<Rightarrow> userId \<Rightarrow> number option" where
  "storedXP d u = (case users d u of None \<Rightarrow> None | Some doc \<Rightarrow> u_totalXP doc)"

definition totalIsNumber :: "db \<Rightarrow> userId \<Rightarrow> bool" where
  "totalIsNumber d u = (case storedXP d u of None \<Rightarrow> True | Some x \<Rightarrow> isNumber x)"

section \<open>Example data\<close>

text \<open>
  Alice (user 1) has sent Bob (user 2) challenge 7 on the vocabulary \<open>apple\<close>; Bob has not
  answered yet.
\<close>

definition alice :: authUser where
  "alice = \<lparr>uid = 1, displayName = ''Alice'', email = ''alice@example.com''\<rparr>"

definition bob :: authUser where
  "bob = \<lparr>uid = 2, displayName = ''Bob'', email = ''bob@example.com''\<rparr>"

definition appleCard :: challengeCard where
  "appleCard = \<lparr>cc_id = 3, cc_vocabulary = ''apple'', cc_definition = ''a fruit'',
     cc_sentence = [], cc_imageUrl = [], cc_pronunciation = [], cc_topicId = None,
     cc_topicName = []\<rparr>"

definition pendingEntry :: recipient where
  "pendingEntry = \<lparr>r_userId = 2, r_status = Pending, r_score = None, r_userAnswer = None,
     r_completedAt = None, r_notified = True\<rparr>"

definition appleChallenge :: challenge where
  "appleChallenge = \<lparr>ch_senderId = 1, ch_senderName = ''Alice'', ch_card = appleCard,
     ch_recipients = [pendingEntry], ch_createdAt = 10, ch_expiresAt = 604810,
     ch_updatedAt = None\<rparr>"

definition emptyDb :: db where
  "emptyDb = \<lparr>challenges = Map.empty, users = Map.empty, completedChallenges = (\<lambda>u. []),
     sharedCards = [], cards = [], myCards = (\<lambda>u. []), friendRequests = []\<rparr>"

definition challengeDb :: db where
  "challengeDb = emptyDb\<lparr>challenges := [7 \<mapsto> appleChallenge]\<rparr>"

text \<open>Bob has answered \<open>apple\<close> at time 50, and then rejected, or answered once more, at time 60.\<close>

definition completedEntry :: recipient where
  "completedEntry = \<lparr>r_userId = 2, r_status = Completed, r_score = Some 100,
     r_userAnswer = Some ''apple'', r_completedAt = Some 50, r_notified = True\<rparr>"

definition appleRecord :: "docId \<Rightarrow> timestamp \<Rightarrow> completedChallenge" where
  "appleRecord k t = \<lparr>cr_id = k, cr_challengeId = 7, cr_senderName = ''Alice'', cr_senderId = 1,
     cr_card = \<lparr>cd_vocabulary = ''apple'', cd_definition = ''a fruit'', cd_imageUrl = None,
                cd_topicName = None, cd_sentence = None, cd_pronunciation = None\<rparr>,
     cr_userAnswer = ''apple'', cr_userScore = 100, cr_isCorrect = True,
     cr_completedAt = t, cr_createdAt = t\<rparr>"

definition completedDb :: db where
  "completedDb = emptyDb
     \<lparr>challenges := [7 \<mapsto> appleChallenge\<lparr>ch_recipients := [completedEntry],
                                         ch_updatedAt := Some 50\<rparr>],
      completedChallenges := (\<lambda>u. [])(2 := [(9, appleRecord 9 50)])\<rparr>"

definition rejectedEntry :: recipient where
  "rejectedEntry = \<lparr>r_userId = 2, r_status = Rejected, r_score = Some 100,
     r_userAnswer = Some ''apple'', r_completedAt = Some 60, r_notified = True\<rparr>"

definition rejectedDb :: db where
  "rejectedDb = completedDb
     \<lparr>challenges := [7 \<mapsto> appleChallenge\<lparr>ch_recipients := [rejectedEntry],
                                         ch_updatedAt := Some 60\<rparr>]\<rparr>"

definition twiceCompletedDb :: db where
  "twiceCompletedDb = completedDb
     \<lparr>challenges := [7 \<mapsto> appleChallenge\<lparr>ch_recipients := [completedEntry\<lparr>r_completedAt := Some 60\<rparr>],
                                         ch_updatedAt := Some 60\<rparr>],
      completedChallenges := (\<lambda>u. [])(2 := [(9, appleRecord 9 50), (10, appleRecord 10 60)])\<rparr>"

text \<open>Bob's user document, with challenge 7 pending and 40 experience points.\<close>

definition bobDoc :: userDoc where
  "bobDoc = \<lparr>u_email = ''bob@example.com'', u_displayName = ''Bob'',
     u_totalXP = Some (Finite 40),
     u_pendingChallenges = Some [7], u_completedChallenges = Some [5],
     u_createdAt = Some 1, u_updatedAt = Some 1\<rparr>"

definition userDb :: db where
  "userDb = challengeDb\<lparr>users := [2 \<mapsto> bobDoc]\<rparr>"

text \<open>
  Bob with the largest total below \<open>2^53\<close>, 9007199254740991, and the store after
  100 more points.
\<close>

definition bigDb :: db where
  "bigDb = emptyDb\<lparr>users := [2 \<mapsto> bobDoc\<lparr>u_totalXP := Some (Finite 9007199254740991)\<rparr>]\<rparr>"

definition bigDbAfter :: db where
  "bigDbAfter = emptyDb\<lparr>users := [2 \<mapsto> bobDoc\<lparr>u_totalXP := Some (Finite 9007199254741092),
                                                 u_updatedAt := Some 10\<rparr>]\<rparr>"

text \<open>
  The request to materialize the card of challenge 7 for Bob, the shared card it creates, and
  a store that holds that card twice.
\<close>

definition appleRequest :: sharedCardRequest where
  "appleRequest = \<lparr>rq_card = appleCard, rq_senderId = 1, rq_recipientId = 2,
     rq_addedFrom = ''challenge''\<rparr>"

definition appleShared :: "timestamp \<Rightarrow> sharedCard" where
  "appleShared t = \<lparr>sc_vocabulary = ''apple'', sc_definition = ''a fruit'', sc_sentence = [],
     sc_imageUrl = [], sc_pronunciation = [], sc_topicId = None, sc_addedFrom = ''challenge'',
     sc_senderId = 1, sc_recipientId = 2, sc_sharedCardId = None, sc_createdAt = t,
     sc_lastAddedAt = t, sc_updatedAt = None, sc_lastEditedBy = None, sc_lastEditedAt = None\<rparr>"

definition sharedDb :: db where
  "sharedDb = emptyDb\<lparr>sharedCards := [(6, appleShared 40)]\<rparr>"

definition duplicateDb :: db where
  "duplicateDb = emptyDb\<lparr>sharedCards := [(4, appleShared 20), (5, appleShared 30)]\<rparr>"

text \<open>A legacy card that Bob created, and a patch that renames a card.\<close>

definition pearCard :: card where
  "pearCard = \<lparr>lc_vocabulary = ''pear'', lc_definition = ''another fruit'', lc_sentence = [],
     lc_imageUrl = [], lc_pronunciation = [], lc_userId = Some 2, lc_topicId = None,
     lc_createdAt = 5, lc_updatedAt = 5\<rparr>"

definition legacyDb :: db where
  "legacyDb = emptyDb\<lparr>cards := [(20, pearCard)]\<rparr>"

definition renamePatch :: cardPatch where
  "renamePatch = \<lparr>p_vocabulary = Some ''peach'', p_definition = None, p_sentence = None,
     p_pronunciation = None, p_imageUrl = None\<rparr>"

text \<open>Bob's pending friend request to Alice, and the store after Alice has sent hers.\<close>

definition requestOf :: "authUser \<Rightarrow> authUser \<Rightarrow> timestamp \<Rightarrow> friendRequest" where
  "requestOf sender receiver t =
     \<lparr>fr_fromUserId = uid sender, fr_fromDisplayName = displayName sender,
      fr_fromEmail = email sender, fr_toUserId = uid receiver,
      fr_toDisplayName = displayName receiver, fr_toEmail = email receiver,
      fr_status = RequestPending, fr_createdAt = t\<rparr>"

definition reverseDb :: db where
  "reverseDb = emptyDb\<lparr>friendRequests := [(30, requestOf bob alice 75)]\<rparr>"

definition crossedDb :: db where
  "crossedDb = emptyDb\<lparr>friendRequests := [(30, requestOf bob alice 75), (31, requestOf alice bob 80)]\<rparr>"

text \<open>Bob holds a reference to the shared card 6 and has created card 20.\<close>

definition refToApple :: myCard where
  "refToApple = \<lparr>mc_sharedCardId = Some 6, mc_topicId = None, mc_addedAt = 45\<rparr>"

definition mixedDb :: db where
  "mixedDb = sharedDb\<lparr>cards := [(20, pearCard)], myCards := (\<lambda>u. [])(2 := [(11, refToApple)])\<rparr>"

section \<open>Strings: lowering the case commutes with trimming\<close>

lemma isWhiteSpace_toLowerChar: "isWhiteSpace (toLowerChar c) = isWhiteSpace c"
  by (auto simp: isWhiteSpace_def toLowerChar_def Let_def)

lemma dropWhile_toLowerCase:
  "dropWhile isWhiteSpace (toLowerCase s) = toLowerCase (dropWhile isWhiteSpace s)"
  by (induction s) (simp_all add: toLowerCase_def isWhiteSpace_toLowerChar)

lemma trim_toLowerCase: "trim (toLowerCase s) = toLowerCase (trim s)"
proof -
  have "rev (toLowerCase s) = toLowerCase (rev s)" for s
    by (simp add: toLowerCase_def rev_map)
  then show ?thesis
    by (simp add: trim_def dropWhile_toLowerCase)
qed

lemma apple_matches: "matchesIgnoringCase ''  Apple  '' ''apple''"
  by code_simp

lemma banana_differs: "\<not> matchesIgnoringCase ''banana'' ''apple''"
  by code_simp

section \<open>The store operations\<close>

lemma map_of_filter_below:
  "map_of (filter (\<lambda>p. fst p < k) c) k' = (if k' < k then map_of c k' else None)"
  by (induction c) auto

lemma map_of_filter_above:
  "map_of (filter (\<lambda>p. k < fst p) c) k' = (if k < k' then map_of c k' else None)"
  by (induction c) auto

lemma getDoc_setDoc: "getDoc (setDoc k x c) k' = (if k' = k then Some x else getDoc c k')"
proof (cases "k' = k")
  case True
  then show ?thesis
    by (simp add: getDoc_def setDoc_def map_of_append map_add_def map_of_filter_below map_of_filter_above)
next
  case False
  then have "k' < k \<or> k < k'" by auto
  then show ?thesis using False
    by (auto simp: getDoc_def setDoc_def map_add_def map_of_filter_below map_of_filter_above split: option.splits)
qed

lemma getDocs_setDoc:
  "getDocs P (setDoc k x c) =
     getDocs P (filter (\<lambda>p. fst p < k) c) @ (if P x then [(k, x)] else []) @
     getDocs P (filter (\<lambda>p. k < fst p) c)"
  by (simp add: getDocs_def setDoc_def)

lemma getDocs_filter_Nil: "getDocs P c = [] \<Longrightarrow> getDocs P (filter Q c) = []"
  by (auto simp: getDocs_def filter_empty_conv)

lemma length_getDocs_split:
  "k \<notin> fst ` set c \<Longrightarrow>
   length (getDocs P (filter (\<lambda>p. fst p < k) c)) + length (getDocs P (filter (\<lambda>p. k < fst p) c))
     = length (getDocs P c)"
  by (induction c) (auto simp: getDocs_def)

lemma length_getDocs_setDoc:
  "k \<notin> fst ` set c \<Longrightarrow>
   length (getDocs P (setDoc k x c)) = length (getDocs P c) + (if P x then 1 else 0)"
  using length_getDocs_split [of k c P] by (simp add: getDocs_setDoc)

section \<open>What \<open>completeChallenge\<close> does\<close>

lemma completeChallenge_unauthenticated:
  "completeChallenge None now nid cid ans d = Inl NotAuthenticated"
  by (simp add: completeChallenge_def getCurrentUserId_def)

lemma completeChallenge_absent:
  "challenges d cid = None \<Longrightarrow> completeChallenge (Some a) now nid cid ans d = Inl ChallengeNotFound"
  by (simp add: completeChallenge_def getCurrentUserId_def)

lemma completeChallenge_stored:
  assumes "challenges d cid = Some ch"
  shows "\<exists>d'.
    completeChallenge (Some a) now nid cid ans d =
       Inr (\<lparr>isCorrect = (trim (toLowerCase ans) = trim (toLowerCase (cc_vocabulary (ch_card ch)))),
             score = (if trim (toLowerCase ans) = trim (toLowerCase (cc_vocabulary (ch_card ch)))
                      then 100 else 0),
             correctAnswer = cc_vocabulary (ch_card ch)\<rparr>, d')
    \<and> challenges d' = (challenges d)(cid \<mapsto> ch\<lparr>ch_recipients :=
            map (\<lambda>r. if r_userId r = uid a
                      then r\<lparr>r_status := Completed,
                             r_score := Some (if trim (toLowerCase ans) =
                                                 trim (toLowerCase (cc_vocabulary (ch_card ch)))
                                              then 100 else 0),
                             r_userAnswer := Some ans, r_completedAt := Some now\<rparr>
                      else r) (ch_recipients ch),
            ch_updatedAt := Some now\<rparr>)
    \<and> completedChallenges d' = (completedChallenges d)(uid a :=
            setDoc nid
              \<lparr>cr_id = nid, cr_challengeId = cid, cr_senderName = ch_senderName ch,
               cr_senderId = ch_senderId ch,
               cr_card = \<lparr>cd_vocabulary = cc_vocabulary (ch_card ch),
                          cd_definition = cc_definition (ch_card ch),
                          cd_imageUrl = ifTruthy (cc_imageUrl (ch_card ch)),
                          cd_topicName = ifTruthy (cc_topicName (ch_card ch)),
                          cd_sentence = ifTruthy (cc_sentence (ch_card ch)),
                          cd_pronunciation = ifTruthy (cc_pronunciation (ch_card ch))\<rparr>,
               cr_userAnswer = ans,
               cr_userScore = (if trim (toLowerCase ans) =
                                  trim (toLowerCase (cc_vocabulary (ch_card ch)))
                               then 100 else 0),
               cr_isCorrect = (trim (toLowerCase ans) = trim (toLowerCase (cc_vocabulary (ch_card ch)))),
               cr_completedAt = now, cr_createdAt = now\<rparr>
              (completedChallenges d (uid a)))
    \<and> users d' =
           (case users d (uid a) of
              None \<Rightarrow> users d
            | Some u \<Rightarrow> (users d)(uid a \<mapsto>
                u\<lparr>u_pendingChallenges := arrayRemove cid (u_pendingChallenges u),
                  u_completedChallenges := arrayUnion cid (u_completedChallenges u)\<rparr>))
    \<and> sharedCards d' = sharedCards d \<and> cards d' = cards d
    \<and> myCards d' = myCards d \<and> friendRequests d' = friendRequests d"
  using assms
  by (cases "users d (uid a)")
     (simp_all add: completeChallenge_def getCurrentUserId_def Let_def)

lemma completeChallenge_Inr_stored:
  assumes "completeChallenge auth now nid cid ans d = Inr (r, d')"
  obtains a ch where "auth = Some a" and "challenges d cid = Some ch"
  using assms
  by (auto simp: completeChallenge_def getCurrentUserId_def split: option.splits)


section \<open>Grading and completion\<close>

text \<open>
  Claim C1. For a stored challenge, \<open>completeChallenge\<close> grades the answer by
  case-insensitive, trimmed exact match against the vocabulary of the embedded card,
  returns \<open>isCorrect\<close>, a score of 100 for a match and 0 otherwise, and the embedded
  vocabulary as \<open>correctAnswer\<close>, and it turns every recipient entry of the caller into a
  completed one that records the score, the answer and the time, whether or not the
  answer was correct. For a challenge that is not stored it fails with
  \<open>Challenge not found\<close>.
\<close>

theorem completeChallenge_grades:
  "case challenges d challengeId of
     None \<Rightarrow>
       completeChallenge (Some user) now newId challengeId userAnswer d = Inl ChallengeNotFound
   | Some ch \<Rightarrow>
       (let correct = matchesIgnoringCase userAnswer (cc_vocabulary (ch_card ch));
            points = (if correct then 100 else 0)
        in \<exists>d' ch'.
             completeChallenge (Some user) now newId challengeId userAnswer d =
               Inr (\<lparr>isCorrect = correct, score = points,
                     correctAnswer = cc_vocabulary (ch_card ch)\<rparr>, d') \<and>
             challenges d' challengeId = Some ch' \<and>
             length (ch_recipients ch') = length (ch_recipients ch) \<and>
             (\<forall>i < length (ch_recipients ch).
                r_userId (ch_recipients ch ! i) = uid user \<longrightarrow>
                ch_recipients ch' ! i =
                  (ch_recipients ch ! i)\<lparr>r_status := Completed, r_score := Some points,
                     r_userAnswer := Some userAnswer, r_completedAt := Some now\<rparr>))"
proof (cases "challenges d challengeId")
  case None
  then show ?thesis by (simp add: completeChallenge_absent)
next
  case (Some ch)
  from completeChallenge_stored [OF Some, of user now newId userAnswer]
  obtain d' where
    res: "completeChallenge (Some user) now newId challengeId userAnswer d =
       Inr (\<lparr>isCorrect = (trim (toLowerCase userAnswer) = trim (toLowerCase (cc_vocabulary (ch_card ch)))),
             score = (if trim (toLowerCase userAnswer) = trim (toLowerCase (cc_vocabulary (ch_card ch)))
                      then 100 else 0),
             correctAnswer = cc_vocabulary (ch_card ch)\<rparr>, d')"
    and chs: "challenges d' = (challenges d)(challengeId \<mapsto> ch\<lparr>ch_recipients :=
            map (\<lambda>r. if r_userId r = uid user
                      then r\<lparr>r_status := Completed,
                             r_score := Some (if trim (toLowerCase userAnswer) =
                                                 trim (toLowerCase (cc_vocabulary (ch_card ch)))
                                              then 100 else 0),
                             r_userAnswer := Some userAnswer, r_completedAt := Some now\<rparr>
                      else r) (ch_recipients ch),
            ch_updatedAt := Some now\<rparr>)"
    by blast
  show ?thesis
    using Some res chs
    by (simp add: Let_def matchesIgnoringCase_def trim_toLowerCase)
qed

theorem completeChallenge_grades_witness:
  "(\<exists>d'. completeChallenge (Some bob) 50 9 7 ''  Apple  '' challengeDb =
           Inr (\<lparr>isCorrect = True, score = 100, correctAnswer = ''apple''\<rparr>, d') \<and>
         map_option ch_recipients (challenges d' 7) =
           Some [\<lparr>r_userId = 2, r_status = Completed, r_score = Some 100,
                  r_userAnswer = Some ''  Apple  '', r_completedAt = Some 50,
                  r_notified = True\<rparr>]) \<and>
   (\<exists>d'. completeChallenge (Some bob) 50 9 7 ''banana'' challengeDb =
           Inr (\<lparr>isCorrect = False, score = 0, correctAnswer = ''apple''\<rparr>, d') \<and>
         map_option ch_recipients (challenges d' 7) =
           Some [\<lparr>r_userId = 2, r_status = Completed, r_score = Some 0,
                  r_userAnswer = Some ''banana'', r_completedAt = Some 50,
                  r_notified = True\<rparr>]) \<and>
   completeChallenge (Some bob) 50 9 8 ''apple'' challengeDb = Inl ChallengeNotFound"
proof -
  have stored: "challenges challengeDb 7 = Some appleChallenge"
    and absent: "challenges challengeDb 8 = None"
    by (simp_all add: challengeDb_def emptyDb_def)
  have one: "length (ch_recipients appleChallenge) = 1"
    by (simp add: appleChallenge_def)
  have vocab: "cc_vocabulary (ch_card appleChallenge) = ''apple''"
    by (simp add: appleChallenge_def appleCard_def)
  have entry: "ch_recipients appleChallenge = [pendingEntry]" "r_userId pendingEntry = uid bob"
    by (simp_all add: appleChallenge_def pendingEntry_def bob_def)
  have upd: "pendingEntry\<lparr>r_status := Completed, r_score := Some p,
                r_userAnswer := Some a, r_completedAt := Some 50\<rparr> =
             \<lparr>r_userId = 2, r_status = Completed, r_score = Some p,
                  r_userAnswer = Some a, r_completedAt = Some 50, r_notified = True\<rparr>" for p a
    by (simp add: pendingEntry_def)
  have single: "length xs = Suc 0 \<Longrightarrow> xs ! 0 = x \<Longrightarrow> xs = [x]" for xs :: "recipient list" and x
    by (cases xs) auto
  show ?thesis
    using completeChallenge_grades [where d = challengeDb and challengeId = 7 and user = bob
        and now = 50 and newId = 9 and userAnswer = "''  Apple  ''"]
      completeChallenge_grades [where d = challengeDb and challengeId = 7 and user = bob
        and now = 50 and newId = 9 and userAnswer = "''banana''"]
      completeChallenge_grades [where d = challengeDb and challengeId = 8 and user = bob
        and now = 50 and newId = 9 and userAnswer = "''apple''"]
    by (auto simp: stored absent vocab entry upd apple_matches banana_differs Let_def
        dest: single)
qed

text \<open>Bob's answer \<open>apple\<close> to challenge 7, evaluated.\<close>

lemma apple_exact: "trim (toLowerCase ''apple'') = ''apple''"
  by code_simp

lemma bob_completes:
  "completeChallenge (Some bob) 50 9 7 ''apple'' challengeDb =
     Inr (\<lparr>isCorrect = True, score = 100, correctAnswer = ''apple''\<rparr>, completedDb)"
  by (simp add: completeChallenge_def getCurrentUserId_def Let_def challengeDb_def emptyDb_def
      appleChallenge_def appleCard_def pendingEntry_def bob_def completedDb_def
      completedEntry_def appleRecord_def apple_exact ifTruthy_def setDoc_def)

section \<open>Recipient entries and their status\<close>

lemma rejectChallenge_absent:
  "challenges d cid = None \<Longrightarrow> rejectChallenge (Some a) now cid d = Inl ChallengeNotFound"
  by (simp add: rejectChallenge_def getCurrentUserId_def)

lemma rejectChallenge_stored:
  "challenges d cid = Some ch \<Longrightarrow>
   rejectChallenge (Some a) now cid d =
     Inr (d\<lparr>challenges := (challenges d)(cid \<mapsto> ch\<lparr>ch_recipients :=
            map (\<lambda>r. if r_userId r = uid a
                      then r\<lparr>r_status := Rejected, r_completedAt := Some now\<rparr> else r)
              (ch_recipients ch),
            ch_updatedAt := Some now\<rparr>)\<rparr>)"
  by (simp add: rejectChallenge_def getCurrentUserId_def)

text \<open>
  Claim C3, as stated, fails: a completed entry does not stay as it is. Bob completes
  challenge 7 and then rejects it; the second call succeeds and turns his completed entry
  into a rejected one.
\<close>

theorem terminal_entry_counterexample:
  "completeChallenge (Some bob) 50 9 7 ''apple'' challengeDb =
     Inr (\<lparr>isCorrect = True, score = 100, correctAnswer = ''apple''\<rparr>, completedDb) \<and>
   map_option ch_recipients (challenges completedDb 7) = Some [completedEntry] \<and>
   r_status completedEntry = Completed \<and>
   rejectChallenge (Some bob) 60 7 completedDb = Inr rejectedDb \<and>
   map_option ch_recipients (challenges rejectedDb 7) = Some [rejectedEntry] \<and>
   r_status rejectedEntry = Rejected"
  by (simp add: bob_completes)
     (simp add: rejectChallenge_def getCurrentUserId_def completedDb_def emptyDb_def
        appleChallenge_def completedEntry_def bob_def rejectedDb_def rejectedEntry_def)

text \<open>
  Claim C3, amended. Neither operation looks at the status of an entry. For a stored
  challenge, \<open>rejectChallenge\<close> turns every recipient entry of the caller into a rejected
  one (stamping \<open>completedAt\<close>) and \<open>completeChallenge\<close> turns every one into a completed
  one (recording score, answer and time), whatever the status of the entry was; the entries
  of the other recipients stay as they are, and no entry is ever set to pending.
\<close>

theorem challenge_entries_unguarded:
  assumes "challenges d challengeId = Some ch"
  shows "(\<exists>d' ch'.
            rejectChallenge (Some user) now challengeId d = Inr d' \<and>
            challenges d' challengeId = Some ch' \<and>
            ch_recipients ch' =
              map (\<lambda>r. if r_userId r = uid user
                        then r\<lparr>r_status := Rejected, r_completedAt := Some now\<rparr> else r)
                (ch_recipients ch)) \<and>
         (\<exists>res d' ch'.
            completeChallenge (Some user) now newId challengeId userAnswer d = Inr (res, d') \<and>
            challenges d' challengeId = Some ch' \<and>
            ch_recipients ch' =
              map (\<lambda>r. if r_userId r = uid user
                        then r\<lparr>r_status := Completed, r_score := Some (score res),
                               r_userAnswer := Some userAnswer, r_completedAt := Some now\<rparr>
                        else r)
                (ch_recipients ch))"
proof -
  have rejected: "\<exists>d' ch'.
      rejectChallenge (Some user) now challengeId d = Inr d' \<and>
      challenges d' challengeId = Some ch' \<and>
      ch_recipients ch' =
        map (\<lambda>r. if r_userId r = uid user
                  then r\<lparr>r_status := Rejected, r_completedAt := Some now\<rparr> else r)
          (ch_recipients ch)"
    by (simp add: rejectChallenge_stored [OF assms])
  from completeChallenge_stored [OF assms, of user now newId userAnswer]
  have completed: "\<exists>res d' ch'.
      completeChallenge (Some user) now newId challengeId userAnswer d = Inr (res, d') \<and>
      challenges d' challengeId = Some ch' \<and>
      ch_recipients ch' =
        map (\<lambda>r. if r_userId r = uid user
                  then r\<lparr>r_status := Completed, r_score := Some (score res),
                         r_userAnswer := Some userAnswer, r_completedAt := Some now\<rparr>
                  else r)
          (ch_recipients ch)"
    by (elim exE conjE) simp
  from rejected completed show ?thesis ..
qed

theorem challenge_entries_unguarded_witness:
  "rejectChallenge (Some bob) 60 7 completedDb = Inr rejectedDb \<and>
   map_option ch_recipients (challenges completedDb 7) = Some [completedEntry] \<and>
   map_option ch_recipients (challenges rejectedDb 7) =
     Some [completedEntry\<lparr>r_status := Rejected, r_completedAt := Some 60\<rparr>] \<and>
   (\<exists>res d'. completeChallenge (Some bob) 70 11 7 ''pear'' rejectedDb = Inr (res, d') \<and>
      map_option ch_recipients (challenges d' 7) =
        Some [rejectedEntry\<lparr>r_status := Completed, r_score := Some (score res),
                r_userAnswer := Some ''pear'', r_completedAt := Some 70\<rparr>])"
proof -
  have c: "challenges completedDb 7 =
      Some (appleChallenge\<lparr>ch_recipients := [completedEntry], ch_updatedAt := Some 50\<rparr>)"
    by (simp add: completedDb_def emptyDb_def)
  have r: "challenges rejectedDb 7 =
      Some (appleChallenge\<lparr>ch_recipients := [rejectedEntry], ch_updatedAt := Some 60\<rparr>)"
    by (simp add: rejectedDb_def)
  have e: "r_userId completedEntry = uid bob" "r_userId rejectedEntry = uid bob"
    "completedEntry\<lparr>r_status := Rejected, r_completedAt := Some 60\<rparr> = rejectedEntry"
    by (simp_all add: completedEntry_def rejectedEntry_def bob_def)
  have rej: "rejectChallenge (Some bob) 60 7 completedDb = Inr rejectedDb"
    by (subst rejectChallenge_stored [OF c]) (simp add: rejectedDb_def e completedDb_def emptyDb_def)
  show ?thesis
    using challenge_entries_unguarded [OF c, where user = bob and now = 60]
      challenge_entries_unguarded [OF r, where user = bob and now = 70 and newId = 11
        and userAnswer = "''pear''"]
    by (auto simp: c r e rej)
qed

section \<open>No card is materialized by completion\<close>

text \<open>
  Claim C4. A successful \<open>completeChallenge\<close> call leaves the collection \<open>sharedCards\<close>,
  the legacy collection \<open>cards\<close> and every user's \<open>myCards\<close> references exactly as they
  were: it creates no shared card and no ownership reference. (A failing call writes
  nothing at all.) Cards are materialized by \<open>addSharedCardFromChallenge\<close> alone.
\<close>

theorem completeChallenge_materializes_nothing:
  assumes "completeChallenge auth now newId challengeId userAnswer d = Inr (res, d')"
  shows "sharedCards d' = sharedCards d \<and> cards d' = cards d \<and> myCards d' = myCards d"
proof -
  from assms obtain a ch where a: "auth = Some a" and ch: "challenges d challengeId = Some ch"
    by (rule completeChallenge_Inr_stored)
  from completeChallenge_stored [OF ch, of a now newId userAnswer] assms a
  show ?thesis by auto
qed

theorem completeChallenge_materializes_nothing_witness:
  "completeChallenge (Some bob) 50 9 7 ''apple'' challengeDb =
     Inr (\<lparr>isCorrect = True, score = 100, correctAnswer = ''apple''\<rparr>, completedDb) \<and>
   sharedCards completedDb = sharedCards challengeDb \<and>
   cards completedDb = cards challengeDb \<and>
   myCards completedDb = myCards challengeDb"
  using completeChallenge_materializes_nothing [OF bob_completes] bob_completes by simp

section \<open>The log of completed challenges\<close>

text \<open>
  Claim C7, as stated, fails: nothing limits the records to one for a user and a
  challenge. Bob completes challenge 7 twice, and his log then holds two records of
  challenge 7.
\<close>

theorem repeated_completion_counterexample:
  "completeChallenge (Some bob) 50 9 7 ''apple'' challengeDb =
     Inr (\<lparr>isCorrect = True, score = 100, correctAnswer = ''apple''\<rparr>, completedDb) \<and>
   completeChallenge (Some bob) 60 10 7 ''apple'' completedDb =
     Inr (\<lparr>isCorrect = True, score = 100, correctAnswer = ''apple''\<rparr>, twiceCompletedDb) \<and>
   map (cr_challengeId \<circ> snd) (completedChallenges completedDb 2) = [7] \<and>
   map (cr_challengeId \<circ> snd) (completedChallenges twiceCompletedDb 2) = [7, 7]"
  by (simp add: bob_completes)
     (simp add: completeChallenge_def getCurrentUserId_def Let_def completedDb_def emptyDb_def
        appleChallenge_def appleCard_def completedEntry_def appleRecord_def bob_def setDoc_def
        twiceCompletedDb_def apple_exact ifTruthy_def)

text \<open>
  Claim C7, amended. Every successful \<open>completeChallenge\<close> call writes exactly one new
  record into the caller's log, under the fresh id the store generates, whether or not the
  answer was correct; the record carries the challenge id, the answer, the score and the
  grade. The records already in the log, and the logs of all other users, stay as they
  are. There is no limit of one record for a user and a challenge: each further call adds
  one more.
\<close>

theorem completeChallenge_appends_record:
  assumes "challenges d challengeId = Some ch"
    and "newId \<notin> fst ` set (completedChallenges d (uid user))"
  shows "\<exists>res d' rec.
           completeChallenge (Some user) now newId challengeId userAnswer d = Inr (res, d') \<and>
           length (getDocs (\<lambda>c. cr_challengeId c = challengeId) (completedChallenges d' (uid user))) =
             length (getDocs (\<lambda>c. cr_challengeId c = challengeId) (completedChallenges d (uid user))) + 1 \<and>
           length (completedChallenges d' (uid user)) =
             length (completedChallenges d (uid user)) + 1 \<and>
           getDoc (completedChallenges d' (uid user)) newId = Some rec \<and>
           cr_challengeId rec = challengeId \<and> cr_userAnswer rec = userAnswer \<and>
           cr_userScore rec = score res \<and> cr_isCorrect rec = isCorrect res \<and>
           (\<forall>k. k \<noteq> newId \<longrightarrow>
              getDoc (completedChallenges d' (uid user)) k =
              getDoc (completedChallenges d (uid user)) k) \<and>
           (\<forall>v. v \<noteq> uid user \<longrightarrow> completedChallenges d' v = completedChallenges d v)"
proof -
  have all: "length (setDoc newId x (completedChallenges d (uid user))) =
      length (completedChallenges d (uid user)) + 1" for x
    using length_getDocs_setDoc [OF assms(2), of "\<lambda>c. True" x] by (simp add: getDocs_def)
  from completeChallenge_stored [OF assms(1), of user now newId userAnswer]
  show ?thesis
    by (elim exE conjE)
       (simp add: length_getDocs_setDoc [OF assms(2)] getDoc_setDoc all)
qed

theorem completeChallenge_appends_record_witness:
  "(\<exists>res d' rec.
      completeChallenge (Some bob) 60 10 7 ''pear'' completedDb = Inr (res, d') \<and>
      length (getDocs (\<lambda>c. cr_challengeId c = 7) (completedChallenges d' 2)) = 2 \<and>
      length (completedChallenges d' 2) = 2 \<and>
      getDoc (completedChallenges d' 2) 10 = Some rec \<and> cr_challengeId rec = 7 \<and>
      cr_userAnswer rec = ''pear'' \<and> cr_userScore rec = score res \<and>
      cr_isCorrect rec = isCorrect res \<and>
      getDoc (completedChallenges d' 2) 9 = Some (appleRecord 9 50))"
proof -
  have c: "challenges completedDb 7 =
      Some (appleChallenge\<lparr>ch_recipients := [completedEntry], ch_updatedAt := Some 50\<rparr>)"
    by (simp add: completedDb_def emptyDb_def)
  have bob: "uid bob = 2"
    by (simp add: bob_def)
  have log: "completedChallenges completedDb 2 = [(9, appleRecord 9 50)]"
    by (simp add: completedDb_def emptyDb_def)
  have fresh: "10 \<notin> fst ` set (completedChallenges completedDb (uid bob))"
    by (simp add: log bob)
  from completeChallenge_appends_record [OF c fresh, where now = 60 and userAnswer = "''pear''"]
  obtain res d' rec where
    run: "completeChallenge (Some bob) 60 10 7 ''pear'' completedDb = Inr (res, d')"
    and count: "length (getDocs (\<lambda>c. cr_challengeId c = 7) (completedChallenges d' (uid bob))) =
      length (getDocs (\<lambda>c. cr_challengeId c = 7) (completedChallenges completedDb (uid bob))) + 1"
    and size: "length (completedChallenges d' (uid bob)) =
      length (completedChallenges completedDb (uid bob)) + 1"
    and new: "getDoc (completedChallenges d' (uid bob)) 10 = Some rec" "cr_challengeId rec = 7"
      "cr_userAnswer rec = ''pear''" "cr_userScore rec = score res"
      "cr_isCorrect rec = isCorrect res"
    and old: "\<forall>k. k \<noteq> 10 \<longrightarrow>
      getDoc (completedChallenges d' (uid bob)) k = getDoc (completedChallenges completedDb (uid bob)) k"
    by blast
  from old have kept: "getDoc (completedChallenges d' 2) 9 = Some (appleRecord 9 50)"
    by (simp add: bob log getDoc_def)
  from count have two: "length (getDocs (\<lambda>c. cr_challengeId c = 7) (completedChallenges d' 2)) = 2"
    by (simp add: bob log getDocs_def appleRecord_def)
  from size have "length (completedChallenges d' 2) = 2"
    by (simp add: bob log)
  with run two new kept show ?thesis
    by (simp add: bob)
qed

section \<open>The caller's user document\<close>

lemma arrayRemove_gone: "\<exists>xs. arrayRemove x field = Some xs \<and> x \<notin> set xs"
  by (cases field) (simp_all add: arrayRemove_def)

lemma arrayUnion_there: "\<exists>xs. arrayUnion x field = Some xs \<and> x \<in> set xs"
  by (cases field) (simp_all add: arrayUnion_def)

text \<open>
  Claim C10. A successful \<open>completeChallenge\<close> call also writes to the caller's user
  document when that document exists: the challenge id is removed from its array
  \<open>pendingChallenges\<close> and added to its array \<open>completedChallenges\<close>, and nothing else in
  the collection \<open>users\<close> changes. When the caller has no user document the call succeeds
  all the same and \<open>users\<close> stays as it is.
\<close>

theorem completeChallenge_moves_challenge_id:
  assumes "challenges d challengeId = Some ch"
  shows "\<exists>res d'.
           completeChallenge (Some user) now newId challengeId userAnswer d = Inr (res, d') \<and>
           (case users d (uid user) of
              None \<Rightarrow> users d' = users d
            | Some u \<Rightarrow>
                users d' = (users d)(uid user \<mapsto>
                  u\<lparr>u_pendingChallenges := arrayRemove challengeId (u_pendingChallenges u),
                    u_completedChallenges := arrayUnion challengeId (u_completedChallenges u)\<rparr>) \<and>
                (\<exists>pending completed.
                   arrayRemove challengeId (u_pendingChallenges u) = Some pending \<and>
                   challengeId \<notin> set pending \<and>
                   arrayUnion challengeId (u_completedChallenges u) = Some completed \<and>
                   challengeId \<in> set completed))"
proof -
  from completeChallenge_stored [OF assms, of user now newId userAnswer]
  obtain res d' where
    run: "completeChallenge (Some user) now newId challengeId userAnswer d = Inr (res, d')"
    and us: "users d' =
           (case users d (uid user) of
              None \<Rightarrow> users d
            | Some u \<Rightarrow> (users d)(uid user \<mapsto>
                u\<lparr>u_pendingChallenges := arrayRemove challengeId (u_pendingChallenges u),
                  u_completedChallenges := arrayUnion challengeId (u_completedChallenges u)\<rparr>))"
    by blast
  show ?thesis
  proof (cases "users d (uid user)")
    case None
    with run us show ?thesis by simp
  next
    case (Some u)
    with run us arrayRemove_gone [of challengeId "u_pendingChallenges u"]
      arrayUnion_there [of challengeId "u_completedChallenges u"]
    show ?thesis by auto
  qed
qed

theorem completeChallenge_moves_challenge_id_witness:
  "(\<exists>res d'. completeChallenge (Some bob) 50 9 7 ''apple'' userDb = Inr (res, d') \<and>
      users d' = [2 \<mapsto> bobDoc\<lparr>u_pendingChallenges := Some [],
                                u_completedChallenges := Some [5, 7]\<rparr>]) \<and>
   (\<exists>res d'. completeChallenge (Some bob) 50 9 7 ''apple'' challengeDb = Inr (res, d') \<and>
      users d' = Map.empty)"
proof -
  have c: "challenges userDb 7 = Some appleChallenge" "challenges challengeDb 7 = Some appleChallenge"
    by (simp_all add: userDb_def challengeDb_def emptyDb_def)
  have u: "users userDb = [2 \<mapsto> bobDoc]" "users challengeDb = Map.empty" "uid bob = 2"
    by (simp_all add: userDb_def challengeDb_def emptyDb_def bob_def)
  have arrays: "arrayRemove 7 (u_pendingChallenges bobDoc) = Some []"
    "arrayUnion 7 (u_completedChallenges bobDoc) = Some [5, 7]"
    by (simp_all add: bobDoc_def arrayRemove_def arrayUnion_def)
  show ?thesis
    using completeChallenge_moves_challenge_id [OF c(1), where user = bob and now = 50
        and newId = 9 and userAnswer = "''apple''"]
      completeChallenge_moves_challenge_id [OF c(2), where user = bob and now = 50
        and newId = 9 and userAnswer = "''apple''"]
    by (simp add: u arrays)
qed

section \<open>Rounding to a double\<close>

lemma roundHalfEven_bounds: "\<lfloor>x\<rfloor> \<le> roundHalfEven x \<and> roundHalfEven x \<le> \<lceil>x\<rceil>"
proof -
  have "x - of_int \<lfloor>x\<rfloor> \<noteq> 0 \<Longrightarrow> \<lfloor>x\<rfloor> + 1 \<le> \<lceil>x\<rceil>"
    by linarith
  moreover have "x - of_int \<lfloor>x\<rfloor> = 0 \<Longrightarrow> roundHalfEven x = \<lfloor>x\<rfloor>"
    by (simp add: roundHalfEven_def)
  moreover have "\<lfloor>x\<rfloor> \<le> \<lceil>x\<rceil>"
    by linarith
  ultimately show ?thesis
    by (cases "x - of_int \<lfloor>x\<rfloor> = 0") (auto simp: roundHalfEven_def Let_def)
qed

lemma roundHalfEven_of_int [simp]: "roundHalfEven (of_int n) = n"
  by (simp add: roundHalfEven_def)

lemma roundHalfEven_ge: "of_int z \<le> x \<Longrightarrow> z \<le> roundHalfEven x"
  using roundHalfEven_bounds [of x] by (meson le_floor_iff order_trans)

lemma roundHalfEven_le: "x \<le> of_int z \<Longrightarrow> roundHalfEven x \<le> z"
  using roundHalfEven_bounds [of x] by (meson ceiling_le_iff order_trans)

lemma roundHalfEven_minus: "roundHalfEven (- x) = - roundHalfEven x"
proof (cases "x = of_int \<lfloor>x\<rfloor>")
  case True
  then obtain n where "x = of_int n" ..
  then show ?thesis
    by (simp flip: of_int_minus)
next
  case False
  then have fl: "\<lfloor>- x\<rfloor> = - \<lfloor>x\<rfloor> - 1"
    by linarith
  show ?thesis
    unfolding roundHalfEven_def Let_def fl
    by (auto simp: algebra_simps)
qed

lemma two_powi_less_iff: "(2::rat) powi m < 2 powi n \<longleftrightarrow> m < n"
proof
  assume "(2::rat) powi m < 2 powi n"
  show "m < n"
  proof (rule ccontr)
    assume "\<not> m < n"
    then have "(2::rat) powi n \<le> 2 powi m"
      by (intro power_int_increasing) auto
    with \<open>(2::rat) powi m < 2 powi n\<close> show False
      by simp
  qed
next
  assume "m < n"
  then show "(2::rat) powi m < 2 powi n"
    by (intro power_int_strict_increasing) auto
qed

lemma two_powi_le_iff: "(2::rat) powi m \<le> 2 powi n \<longleftrightarrow> m \<le> n"
  using two_powi_less_iff [of n m] by (auto simp: not_less [symmetric])

lemma exponentOf_bounds:
  assumes "q \<noteq> 0"
  shows "2 powi exponentOf q \<le> \<bar>q\<bar>" and "\<bar>q\<bar> < 2 powi (exponentOf q + 1)"
proof -
  have "2 powi exponentOf q \<le> \<bar>q\<bar> \<and> \<bar>q\<bar> < 2 powi (exponentOf q + 1)"
  proof (cases "1 \<le> \<bar>q\<bar>")
    case True
    define n where "n = \<lfloor>\<bar>q\<bar>\<rfloor>"
    have n: "0 < n" "of_int n \<le> \<bar>q\<bar>" "\<bar>q\<bar> < of_int (n + 1)"
      using True unfolding n_def by linarith+
    from bitlen_bounds [OF n(1)]
    have lo: "(2::int) ^ nat (bitlen n - 1) \<le> n" and hi: "n < 2 ^ nat (bitlen n)"
      by auto
    have pos: "0 < bitlen n"
      using n(1) bitlen_nonneg [of n] bitlen_eq_zero_iff [of n] by linarith
    have e: "exponentOf q = bitlen n - 1"
      using True by (simp add: exponentOf_def n_def)
    have "(2::rat) powi (bitlen n - 1) = of_int (2 ^ nat (bitlen n - 1))"
      using pos by (simp add: power_int_def)
    also have "\<dots> \<le> of_int n"
      using lo by (simp only: of_int_le_iff)
    finally have 1: "(2::rat) powi (bitlen n - 1) \<le> \<bar>q\<bar>"
      using n(2) by linarith
    have "n + 1 \<le> 2 ^ nat (bitlen n)"
      using hi by linarith
    then have "(of_int (n + 1) :: rat) \<le> of_int (2 ^ nat (bitlen n))"
      by (simp only: of_int_le_iff)
    also have "\<dots> = 2 powi (bitlen n)"
      using pos by (simp add: power_int_def)
    finally have 2: "\<bar>q\<bar> < 2 powi (bitlen n)"
      using n(3) by linarith
    from 1 2 show ?thesis
      by (simp add: e)
  next
    case False
    define r where "r = 1 / \<bar>q\<bar>"
    define n where "n = \<lceil>r\<rceil> - 1"
    have q: "0 < \<bar>q\<bar>" "\<bar>q\<bar> < 1"
      using assms False by auto
    then have r: "1 < r"
      by (simp add: r_def)
    have n: "0 < n" "of_int n < r" "r \<le> of_int (n + 1)"
      using r unfolding n_def by linarith+
    from bitlen_bounds [OF n(1)]
    have lo: "(2::int) ^ nat (bitlen n - 1) \<le> n" and hi: "n < 2 ^ nat (bitlen n)"
      by auto
    have pos: "0 < bitlen n"
      using n(1) bitlen_nonneg [of n] bitlen_eq_zero_iff [of n] by linarith
    have e: "exponentOf q = - bitlen n"
      using False by (simp add: exponentOf_def n_def r_def)
    have "(2::rat) powi (bitlen n - 1) = of_int (2 ^ nat (bitlen n - 1))"
      using pos by (simp add: power_int_def)
    also have "\<dots> \<le> of_int n"
      using lo by (simp only: of_int_le_iff)
    finally have 1: "(2::rat) powi (bitlen n - 1) < r"
      using n(2) by linarith
    have "n + 1 \<le> 2 ^ nat (bitlen n)"
      using hi by linarith
    then have "(of_int (n + 1) :: rat) \<le> of_int (2 ^ nat (bitlen n))"
      by (simp only: of_int_le_iff)
    also have "\<dots> = 2 powi (bitlen n)"
      using pos by (simp add: power_int_def)
    finally have 2: "r \<le> 2 powi (bitlen n)"
      using n(3) by linarith
    have qr: "\<bar>q\<bar> = 1 / r"
      by (simp add: r_def)
    have "1 / (2 powi (bitlen n)) \<le> 1 / r"
      using 2 r by (simp add: frac_le)
    then have lower: "2 powi (- bitlen n) \<le> \<bar>q\<bar>"
      by (simp add: qr power_int_minus_divide)
    have "1 / r < 1 / (2 powi (bitlen n - 1))"
      using 1 by (simp add: frac_less2)
    then have upper: "\<bar>q\<bar> < 2 powi (- bitlen n + 1)"
      using power_int_minus_divide [of "2::rat" "bitlen n - 1"] by (simp add: qr)
    from lower upper show ?thesis
      by (simp add: e)
  qed
  then show "2 powi exponentOf q \<le> \<bar>q\<bar>" and "\<bar>q\<bar> < 2 powi (exponentOf q + 1)"
    by simp_all
qed

lemma exponentOf_unique:
  assumes "2 powi k \<le> \<bar>q\<bar>" and "\<bar>q\<bar> < 2 powi (k + 1)"
  shows "exponentOf q = k"
proof -
  have "q \<noteq> 0"
  proof
    assume "q = 0"
    with assms(1) have "(2::rat) powi k \<le> 0"
      by simp
    moreover have "(0::rat) < 2 powi k"
      by simp
    ultimately show False
      by linarith
  qed
  from exponentOf_bounds [OF this] assms
  have "(2::rat) powi k < 2 powi (exponentOf q + 1)" "(2::rat) powi exponentOf q < 2 powi (k + 1)"
    by linarith+
  then have "k < exponentOf q + 1" "exponentOf q < k + 1"
    by (simp_all add: two_powi_less_iff)
  then show ?thesis
    by simp
qed



lemma exponentOf_minus [simp]: "exponentOf (- q) = exponentOf q"
  by (simp add: exponentOf_def)

lemma ulp_minus [simp]: "ulp (- q) = ulp q"
  by (simp add: ulp_def)

lemma ulp_pos [simp]: "0 < ulp q"
  by (simp add: ulp_def)

lemma roundFinite_minus: "roundFinite (- q) = - roundFinite q"
  by (simp add: roundFinite_def roundHalfEven_minus)

lemma roundFinite_0 [simp]: "roundFinite 0 = 0"
  using roundHalfEven_of_int [of 0] by (simp add: roundFinite_def del: roundHalfEven_of_int)

lemma onGrid_minus: "onGrid (- q) = onGrid q"
proof -
  have "onGrid q \<Longrightarrow> onGrid (- q)" for q
  proof -
    assume "onGrid q"
    then obtain m k where "q = of_int m * 2 powi k" "\<bar>m\<bar> < 2 ^ 53" "- 1074 \<le> k"
      unfolding onGrid_def by blast
    then have "- q = of_int (- m) * 2 powi k \<and> \<bar>- m\<bar> < 2 ^ 53 \<and> - 1074 \<le> k"
      by simp
    then show "onGrid (- q)"
      unfolding onGrid_def by blast
  qed
  from this [of q] this [of "- q"] show ?thesis
    by auto
qed

lemma multiple_of_coarser:
  assumes "j \<le> k"
  shows "of_int m * (2::rat) powi k = of_int (m * 2 ^ nat (k - j)) * 2 powi j"
proof -
  have "(2::rat) powi k = 2 powi (k - j) * 2 powi j"
    by (simp flip: power_int_add)
  also have "(2::rat) powi (k - j) = 2 ^ nat (k - j)"
    using assms by (simp add: power_int_def)
  finally show ?thesis
    by simp
qed

lemma roundFinite_ge_multiple:
  assumes "of_int z * ulp q \<le> q"
  shows "of_int z * ulp q \<le> roundFinite q"
proof -
  from assms have "of_int z \<le> q / ulp q"
    by (simp add: pos_le_divide_eq)
  then have "z \<le> roundHalfEven (q / ulp q)"
    by (rule roundHalfEven_ge)
  then have "(of_int z :: rat) \<le> of_int (roundHalfEven (q / ulp q))"
    by (simp only: of_int_le_iff)
  then show ?thesis
    unfolding roundFinite_def by (rule mult_right_mono) (simp add: less_imp_le)
qed

lemma roundFinite_ge_grid:
  assumes g: "onGrid g" and le: "g \<le> q"
  shows "g \<le> roundFinite q"
proof -
  from g obtain m k where gmk: "g = of_int m * 2 powi k" and m: "\<bar>m\<bar> < 2 ^ 53"
    and k: "- 1074 \<le> k"
    unfolding onGrid_def by blast
  define j where "j = max (exponentOf q) (- 1022) - 52"
  have u: "ulp q = 2 powi j"
    by (simp add: ulp_def j_def)
  have coarse: "g \<le> roundFinite q" if "j \<le> k"
  proof -
    from multiple_of_coarser [OF that, of m]
    have "g = of_int (m * 2 ^ nat (k - j)) * ulp q"
      by (simp add: gmk u)
    with le roundFinite_ge_multiple [of "m * 2 ^ nat (k - j)" q] show ?thesis
      by simp
  qed
  have bound: "\<bar>g\<bar> < 2 powi (53 + k)"
  proof -
    have "\<bar>g\<bar> = of_int \<bar>m\<bar> * 2 powi k"
      by (simp add: gmk abs_mult)
    also have "\<dots> < of_int (2 ^ 53) * 2 powi k"
      using m by (intro mult_strict_right_mono) (simp_all only: of_int_less_iff zero_less_power_int zero_less_numeral)
    also have "\<dots> = 2 powi (53 + k)"
      by (simp add: power_int_add)
    finally show ?thesis .
  qed
  consider "q = 0" | "0 < q" | "q < 0"
    by linarith
  then show ?thesis
  proof cases
    case 1
    with le show ?thesis
      by simp
  next
    case 2
    have "of_int 0 * ulp q \<le> q"
      using 2 by simp
    from roundFinite_ge_multiple [OF this] have nonneg: "0 \<le> roundFinite q"
      by simp
    show ?thesis
    proof (cases "j \<le> k")
      case True
      then show ?thesis
        by (rule coarse)
    next
      case False
      with k have e: "max (exponentOf q) (- 1022) = exponentOf q"
        unfolding j_def by linarith
      from False have "53 + k \<le> exponentOf q"
        unfolding j_def e by linarith
      then have "(2::rat) powi (53 + k) \<le> 2 powi exponentOf q"
        by (simp add: two_powi_le_iff)
      with bound have below: "g < 2 powi exponentOf q"
        by linarith
      have "2 powi exponentOf q \<le> \<bar>q\<bar>"
        using 2 by (intro exponentOf_bounds) simp
      with 2 have inside: "2 powi exponentOf q \<le> q"
        by linarith
      have "(2::rat) powi exponentOf q = 2 powi (52 + j)"
        unfolding j_def e by simp
      also have "\<dots> = of_int (2 ^ 52) * ulp q"
        by (simp add: power_int_add u)
      finally have edge: "(2::rat) powi exponentOf q = of_int (2 ^ 52) * ulp q" .
      from inside roundFinite_ge_multiple [of "2 ^ 52" q] have "2 powi exponentOf q \<le> roundFinite q"
        unfolding edge by simp
      with below show ?thesis
        by linarith
    qed
  next
    case 3
    with le have neg: "\<bar>q\<bar> \<le> \<bar>g\<bar>"
      by linarith
    have "2 powi exponentOf q \<le> \<bar>q\<bar>"
      using 3 by (intro exponentOf_bounds) simp
    with neg bound have "(2::rat) powi exponentOf q < 2 powi (53 + k)"
      by linarith
    then have "exponentOf q < 53 + k"
      by (simp add: two_powi_less_iff)
    with k have "j \<le> k"
      unfolding j_def by linarith
    then show ?thesis
      by (rule coarse)
  qed
qed

lemma roundFinite_le_grid:
  assumes "onGrid g" and "q \<le> g"
  shows "roundFinite q \<le> g"
  using roundFinite_ge_grid [of "- g" "- q"] assms
  by (simp add: onGrid_minus roundFinite_minus)

lemma roundFinite_fixed: "onGrid g \<Longrightarrow> roundFinite g = g"
  using roundFinite_ge_grid [of g g] roundFinite_le_grid [of g g] by simp


lemma roundFinite_onGrid: "onGrid (roundFinite q)"
proof (cases "q = 0")
  case True
  have "(0::rat) = of_int 0 * 2 powi 0 \<and> \<bar>0::int\<bar> < 2 ^ 53 \<and> (- 1074::int) \<le> 0"
    by simp
  then have "onGrid 0"
    unfolding onGrid_def by blast
  with True show ?thesis
    by simp
next
  case False
  define j where "j = max (exponentOf q) (- 1022) - 52"
  define M where "M = roundHalfEven (q / ulp q)"
  have u: "ulp q = 2 powi j"
    by (simp add: ulp_def j_def)
  have j: "- 1074 \<le> j"
    unfolding j_def by linarith
  have rf: "roundFinite q = of_int M * 2 powi j"
    by (simp add: roundFinite_def M_def u)
  have "\<bar>q\<bar> < 2 powi (exponentOf q + 1)"
    using False by (rule exponentOf_bounds)
  also have "(2::rat) powi (exponentOf q + 1) \<le> 2 powi (53 + j)"
    unfolding j_def by (simp add: two_powi_le_iff)
  also have "(2::rat) powi (53 + j) = of_int (2 ^ 53) * ulp q"
    by (simp add: power_int_add u)
  finally have "\<bar>q\<bar> < of_int (2 ^ 53) * ulp q" .
  then have "q \<le> of_int (2 ^ 53) * ulp q" "of_int (- (2 ^ 53)) * ulp q \<le> q"
    by (simp_all add: abs_less_iff)
  then have "q / ulp q \<le> of_int (2 ^ 53)" "of_int (- (2 ^ 53)) \<le> q / ulp q"
    by (simp_all add: pos_le_divide_eq pos_divide_le_eq)
  then have "M \<le> 2 ^ 53" "- (2 ^ 53) \<le> M"
    unfolding M_def by (auto intro: roundHalfEven_le roundHalfEven_ge)
  then consider "\<bar>M\<bar> < 2 ^ 53" | "M = 2 ^ 53" | "M = - (2 ^ 53)"
    by linarith
  then show ?thesis
  proof cases
    case 1
    with rf j show ?thesis
      unfolding onGrid_def by blast
  next
    case 2
    have "roundFinite q = of_int (2 ^ 52) * 2 powi (j + 1)"
      by (simp add: rf 2 power_int_add)
    moreover have "\<bar>2 ^ 52 :: int\<bar> < 2 ^ 53" "- 1074 \<le> j + 1"
      using j by simp_all
    ultimately show ?thesis
      unfolding onGrid_def by blast
  next
    case 3
    have "roundFinite q = of_int (- (2 ^ 52)) * 2 powi (j + 1)"
      by (simp add: rf 3 power_int_add)
    moreover have "\<bar>- (2 ^ 52) :: int\<bar> < 2 ^ 53" "- 1074 \<le> j + 1"
      using j by simp_all
    ultimately show ?thesis
      unfolding onGrid_def by blast
  qed
qed

lemma roundFinite_idem: "roundFinite (roundFinite q) = roundFinite q"
  by (rule roundFinite_fixed) (rule roundFinite_onGrid)

lemma toNumber_cases:
  obtains "toNumber q = PlusInfinity" "2 ^ 1024 \<le> roundFinite q"
  | "toNumber q = MinusInfinity" "roundFinite q \<le> - (2 ^ 1024)"
  | "toNumber q = Finite (roundFinite q)" "\<bar>roundFinite q\<bar> < 2 ^ 1024"
  by (cases "2 ^ 1024 \<le> roundFinite q"; cases "roundFinite q \<le> - (2 ^ 1024)")
     (auto simp: toNumber_def Let_def)

lemma isNumber_Finite: "isNumber (Finite t) \<longleftrightarrow> onGrid t \<and> \<bar>t\<bar> < 2 ^ 1024"
proof
  assume "isNumber (Finite t)"
  then have t: "toNumber t = Finite t"
    by (simp add: isNumber_def)
  then have "roundFinite t = t" "\<bar>roundFinite t\<bar> < 2 ^ 1024"
    by (cases t rule: toNumber_cases; simp)+
  with roundFinite_onGrid [of t] show "onGrid t \<and> \<bar>t\<bar> < 2 ^ 1024"
    by simp
next
  assume "onGrid t \<and> \<bar>t\<bar> < 2 ^ 1024"
  then have "roundFinite t = t" "\<bar>t\<bar> < 2 ^ 1024"
    by (simp_all add: roundFinite_fixed)
  then show "isNumber (Finite t)"
    by (simp add: isNumber_def toNumber_def Let_def abs_less_iff not_le)
qed

lemma isNumber_toNumber: "isNumber (toNumber q)"
proof (cases q rule: toNumber_cases)
  case 3
  then show ?thesis
    by (simp add: isNumber_Finite roundFinite_onGrid)
qed (simp_all add: isNumber_def)

lemma onGrid_of_int:
  assumes "\<bar>n\<bar> \<le> 2 ^ 53"
  shows "onGrid (of_int n)"
proof -
  from assms consider "\<bar>n\<bar> < 2 ^ 53" | "n = 2 ^ 53" | "n = - (2 ^ 53)"
    by linarith
  then show ?thesis
  proof cases
    case 1
    then have "(of_int n :: rat) = of_int n * 2 powi 0 \<and> \<bar>n\<bar> < 2 ^ 53 \<and> (- 1074::int) \<le> 0"
      by simp
    then show ?thesis
      unfolding onGrid_def by blast
  next
    case 2
    have "(of_int n :: rat) = of_int (2 ^ 52) * 2 powi 1 \<and> \<bar>2 ^ 52 :: int\<bar> < 2 ^ 53 \<and>
        (- 1074::int) \<le> 1"
      by (simp add: 2)
    then show ?thesis
      unfolding onGrid_def by blast
  next
    case 3
    have "(of_int n :: rat) = of_int (- (2 ^ 52)) * 2 powi 1 \<and> \<bar>- (2 ^ 52) :: int\<bar> < 2 ^ 53 \<and>
        (- 1074::int) \<le> 1"
      by (simp add: 3)
    then show ?thesis
      unfolding onGrid_def by blast
  qed
qed

lemma toNumber_of_int:
  assumes "\<bar>n\<bar> \<le> 2 ^ 53"
  shows "toNumber (of_int n) = Finite (of_int n)"
proof -
  have "\<bar>of_int n :: rat\<bar> \<le> of_int (2 ^ 53)"
    using assms by (simp only: of_int_le_iff flip: of_int_abs)
  also have "(of_int (2 ^ 53) :: rat) < 2 ^ 1024"
    by simp
  finally have "isNumber (Finite (of_int n))"
    using onGrid_of_int [OF assms] by (simp add: isNumber_Finite)
  then show ?thesis
    by (simp add: isNumber_def)
qed

lemma toNumber_ge:
  assumes "isNumber (Finite t)" and "t \<le> q"
  shows "numberLe (Finite t) (toNumber q)"
proof -
  from assms(1) have t: "onGrid t" "- (2 ^ 1024) < t"
    by (simp_all add: isNumber_Finite abs_less_iff)
  from roundFinite_ge_grid [OF t(1) assms(2)] have "t \<le> roundFinite q" .
  with t(2) show ?thesis
    by (cases q rule: toNumber_cases) simp_all
qed


section \<open>Experience points\<close>

lemma toNumber_numeral:
  "(numeral n :: int) \<le> 2 ^ 53 \<Longrightarrow> toNumber (numeral n) = Finite (numeral n)"
  using toNumber_of_int [of "numeral n"] by simp

lemma toNumber_0 [simp]: "toNumber 0 = Finite 0"
  using toNumber_of_int [of 0] by simp

lemma isNumber_numberPlus: "isNumber (numberPlus x y)"
  by (cases x; cases y) (simp_all add: isNumber_toNumber, simp_all add: isNumber_def)

lemma numberLe_refl: "x \<noteq> NaN \<Longrightarrow> numberLe x x"
  by (cases x) simp_all

lemma numberLe_trans: "numberLe x y \<Longrightarrow> numberLe y z \<Longrightarrow> numberLe x z"
  by (cases x; cases y; cases z) simp_all

lemma numberPlus_ge:
  assumes "isNumber t" and "numberLe (Finite 0) a"
  shows "numberLe (if falsy t then Finite 0 else t)
           (if falsy (numberPlus t a) then Finite 0 else numberPlus t a)"
proof (cases t)
  case (Finite q)
  show ?thesis
  proof (cases a)
    case (Finite r)
    with assms(2) have "q \<le> q + r"
      by simp
    from toNumber_ge [OF assms(1) [unfolded \<open>t = Finite q\<close>] this]
    have "numberLe (Finite q) (toNumber (q + r))" .
    then show ?thesis
      by (cases "toNumber (q + r)") (auto simp: \<open>t = Finite q\<close> Finite falsy_def)
  qed (use assms(2) in \<open>simp_all add: \<open>t = Finite q\<close> falsy_def\<close>)
next
  case PlusInfinity
  with assms(2) show ?thesis
    by (cases a) (simp_all add: falsy_def)
next
  case MinusInfinity
  with assms(2) show ?thesis
    by (cases a) (simp_all add: falsy_def)
next
  case NaN
  then show ?thesis
    by (simp add: falsy_def)
qed

lemma getUserXP_stored:
  "getUserXP (Some user) d =
     (case storedXP d (uid user) of
        None \<Rightarrow> Finite 0
      | Some x \<Rightarrow> if falsy x then Finite 0 else x)"
  by (simp add: getUserXP_def getCurrentUserId_def storedXP_def split: option.splits)

lemma getUserXP_not_NaN: "getUserXP auth d \<noteq> NaN"
  by (auto simp: getUserXP_def falsy_def split: sum.splits option.splits)

lemma addUserXP_stored:
  "\<exists>d'. addUserXP (Some user) now a d = Inr d' \<and>
         storedXP d' (uid user) = increment a (storedXP d (uid user))"
  by (cases "users d (uid user)")
     (simp_all add: addUserXP_def getCurrentUserId_def storedXP_def increment_def)

lemma addUserXP_grows:
  assumes "totalIsNumber d (uid user)" and "isNumber a" and "numberLe (Finite 0) a"
  shows "\<exists>d'. addUserXP (Some user) now a d = Inr d' \<and>
           numberLe (getUserXP (Some user) d) (getUserXP (Some user) d') \<and>
           totalIsNumber d' (uid user)"
proof -
  from addUserXP_stored [of user now a d] obtain d' where
    run: "addUserXP (Some user) now a d = Inr d'"
    and st: "storedXP d' (uid user) = increment a (storedXP d (uid user))"
    by blast
  have "numberLe (getUserXP (Some user) d) (getUserXP (Some user) d') \<and>
      totalIsNumber d' (uid user)"
  proof (cases "storedXP d (uid user)")
    case None
    with assms(2,3) show ?thesis
      by (cases a) (auto simp: getUserXP_stored st increment_def totalIsNumber_def falsy_def)
  next
    case (Some t)
    with assms(1) have "isNumber t"
      by (simp add: totalIsNumber_def)
    from numberPlus_ge [OF this assms(3)] show ?thesis
      by (simp add: getUserXP_stored st Some increment_def totalIsNumber_def isNumber_numberPlus)
  qed
  with run show ?thesis
    by blast
qed

lemma addUserXPs_grow:
  assumes "totalIsNumber d (uid user)"
    and "\<forall>call \<in> set calls. isNumber (snd call) \<and> numberLe (Finite 0) (snd call)"
  shows "\<exists>d'. addUserXPs (Some user) calls d = Inr d' \<and>
           numberLe (getUserXP (Some user) d) (getUserXP (Some user) d') \<and>
           totalIsNumber d' (uid user)"
  using assms
proof (induction calls arbitrary: d)
  case Nil
  then show ?case
    by (simp add: numberLe_refl getUserXP_not_NaN)
next
  case (Cons call calls)
  from Cons.prems have "isNumber (snd call)" "numberLe (Finite 0) (snd call)"
    by simp_all
  from addUserXP_grows [OF Cons.prems(1) this, of "fst call"] obtain d1 where
    one: "addUserXP (Some user) (fst call) (snd call) d = Inr d1"
    and le1: "numberLe (getUserXP (Some user) d) (getUserXP (Some user) d1)"
    and wf1: "totalIsNumber d1 (uid user)"
    by blast
  from Cons.prems have "\<forall>call \<in> set calls. isNumber (snd call) \<and> numberLe (Finite 0) (snd call)"
    by simp
  from Cons.IH [OF wf1 this] obtain d' where
    rest: "addUserXPs (Some user) calls d1 = Inr d'"
    and le2: "numberLe (getUserXP (Some user) d1) (getUserXP (Some user) d')"
    and wf2: "totalIsNumber d' (uid user)"
    by blast
  from one rest numberLe_trans [OF le1 le2] wf2 show ?case
    by simp
qed

lemma addUserXP_hundred:
  assumes "getUserXP (Some user) d = Finite (of_int n)" and "\<bar>n + 100\<bar> \<le> 2 ^ 53"
    and "storedXP d (uid user) \<noteq> Some NaN"
  shows "\<exists>d'. addUserXP (Some user) now (Finite 100) d = Inr d' \<and>
           getUserXP (Some user) d' = Finite (of_int (n + 100))"
proof -
  from addUserXP_stored [of user now "Finite 100" d] obtain d' where
    run: "addUserXP (Some user) now (Finite 100) d = Inr d'"
    and st: "storedXP d' (uid user) = increment (Finite 100) (storedXP d (uid user))"
    by blast
  have sum: "toNumber (of_int n + 100) = Finite (of_int (n + 100))"
    using toNumber_of_int [OF assms(2)] by simp
  have "getUserXP (Some user) d' = Finite (of_int (n + 100))"
  proof (cases "storedXP d (uid user)")
    case None
    with assms(1) have "n = 0"
      by (simp add: getUserXP_stored)
    with None show ?thesis
      by (simp add: getUserXP_stored st increment_def falsy_def)
  next
    case (Some t)
    with assms(1,3) have "t = Finite (of_int n)"
      by (auto simp: getUserXP_stored falsy_def split: if_splits)
    with Some sum show ?thesis
      by (auto simp: getUserXP_stored st increment_def falsy_def)
  qed
  with run show ?thesis
    by blast
qed

lemma big_total_rounds: "toNumber 9007199254741091 = Finite 9007199254741092"
proof -
  have e: "exponentOf 9007199254741091 = 53"
    by (rule exponentOf_unique) simp_all
  have u: "ulp 9007199254741091 = 2"
    by (simp add: ulp_def e)
  have fl: "\<lfloor>9007199254741091 / 2 :: rat\<rfloor> = 4503599627370545"
    by (rule floor_unique) simp_all
  have "roundHalfEven (9007199254741091 / 2) = 4503599627370546"
    by (simp add: roundHalfEven_def Let_def fl)
  then have "roundFinite 9007199254741091 = 9007199254741092"
    by (simp add: roundFinite_def u)
  then show ?thesis
    by (simp add: toNumber_def)
qed

lemma big_total_isNumber: "isNumber (Finite 9007199254740991)"
  using toNumber_of_int [of 9007199254740991] by (simp add: isNumber_def)



lemma half_isNumber: "isNumber (Finite (1 / 2))"
proof -
  have "(1 / 2 :: rat) = of_int 1 * 2 powi (- 1) \<and> \<bar>1::int\<bar> < 2 ^ 53 \<and> (- 1074::int) \<le> - 1"
    by (simp add: power_int_minus_divide)
  then have "onGrid (1 / 2)"
    unfolding onGrid_def by blast
  moreover have "\<bar>1 / 2 :: rat\<bar> < 2 ^ 1024"
    by simp
  ultimately show ?thesis
    by (simp only: isNumber_Finite)
qed

lemma small_isNumber: "isNumber (Finite 0)" "isNumber (Finite 40)" "isNumber (Finite 100)"
  using toNumber_of_int [of 0] toNumber_of_int [of 40] toNumber_of_int [of 100]
  by (simp_all add: isNumber_def)

text \<open>
  Claim C9, as stated, fails in its second part: totals are JavaScript numbers, and the sum
  is rounded to a double. Bob's total is 9007199254740991, the largest integer below
  \<open>2^53\<close>; after \<open>addUserXP(100)\<close> the total read is 9007199254741092, which is 101 more.
\<close>

theorem xp_rounding_counterexample:
  "isNumber (Finite 9007199254740991) \<and>
   getUserXP (Some bob) bigDb = Finite 9007199254740991 \<and>
   addUserXP (Some bob) 10 (Finite 100) bigDb = Inr bigDbAfter \<and>
   getUserXP (Some bob) bigDbAfter = Finite 9007199254741092 \<and>
   (9007199254741092 :: rat) = 9007199254740991 + 101"
  by (simp add: big_total_isNumber)
     (simp add: addUserXP_def getUserXP_def getCurrentUserId_def increment_def falsy_def
        bigDb_def bigDbAfter_def emptyDb_def bobDoc_def bob_def big_total_rounds)

text \<open>
  Claim C9, amended. Amounts and totals are JavaScript numbers. Over any sequence of
  \<open>addUserXP\<close> calls with non-negative amounts the value of \<open>getUserXP\<close> does not
  decrease (every call succeeds). After \<open>addUserXP(100)\<close> the value is exactly 100 more
  than before whenever the total before is an integer \<open>n\<close> with \<open>|n + 100| \<le> 2^53\<close> (and
  the stored total is not \<open>NaN\<close>); beyond that range the sum is rounded to the nearest
  double. For a user without a user document \<open>getUserXP\<close> is 0, and \<open>addUserXP(100)\<close>
  creates the document with a total of 100.
\<close>

theorem xp_non_decreasing:
  "(totalIsNumber d (uid user) \<and>
    (\<forall>call \<in> set calls. isNumber (snd call) \<and> numberLe (Finite 0) (snd call)) \<longrightarrow>
      (\<exists>d'. addUserXPs (Some user) calls d = Inr d' \<and>
             numberLe (getUserXP (Some user) d) (getUserXP (Some user) d'))) \<and>
   (getUserXP (Some user) d = Finite (of_int n) \<and> \<bar>n + 100\<bar> \<le> 2 ^ 53 \<and>
    storedXP d (uid user) \<noteq> Some NaN \<longrightarrow>
      (\<exists>d'. addUserXP (Some user) now (Finite 100) d = Inr d' \<and>
             getUserXP (Some user) d' = Finite (of_int (n + 100)))) \<and>
   (users d (uid user) = None \<longrightarrow>
      getUserXP (Some user) d = Finite 0 \<and>
      (\<exists>d' u. addUserXP (Some user) now (Finite 100) d = Inr d' \<and>
              users d' (uid user) = Some u \<and> u_totalXP u = Some (Finite 100)))"
proof (intro conjI impI)
  assume "totalIsNumber d (uid user) \<and>
    (\<forall>call \<in> set calls. isNumber (snd call) \<and> numberLe (Finite 0) (snd call))"
  then have "totalIsNumber d (uid user)"
    and "\<forall>call \<in> set calls. isNumber (snd call) \<and> numberLe (Finite 0) (snd call)"
    by simp_all
  from addUserXPs_grow [OF this]
  show "\<exists>d'. addUserXPs (Some user) calls d = Inr d' \<and>
             numberLe (getUserXP (Some user) d) (getUserXP (Some user) d')"
    by blast
next
  assume "getUserXP (Some user) d = Finite (of_int n) \<and> \<bar>n + 100\<bar> \<le> 2 ^ 53 \<and>
    storedXP d (uid user) \<noteq> Some NaN"
  then have "getUserXP (Some user) d = Finite (of_int n)" "\<bar>n + 100\<bar> \<le> 2 ^ 53"
    "storedXP d (uid user) \<noteq> Some NaN"
    by simp_all
  then show "\<exists>d'. addUserXP (Some user) now (Finite 100) d = Inr d' \<and>
             getUserXP (Some user) d' = Finite (of_int (n + 100))"
    by (rule addUserXP_hundred)
next
  assume "users d (uid user) = None"
  then show "getUserXP (Some user) d = Finite 0"
    by (simp add: getUserXP_def getCurrentUserId_def)
next
  assume "users d (uid user) = None"
  then show "\<exists>d' u. addUserXP (Some user) now (Finite 100) d = Inr d' \<and>
              users d' (uid user) = Some u \<and> u_totalXP u = Some (Finite 100)"
    by (simp add: addUserXP_def getCurrentUserId_def)
qed

theorem xp_non_decreasing_witness:
  "totalIsNumber userDb (uid bob) \<and> getUserXP (Some bob) userDb = Finite 40 \<and>
   (\<exists>d'. addUserXPs (Some bob) [(10, Finite 100), (20, Finite 0), (30, Finite (1 / 2))] userDb =
            Inr d' \<and>
          numberLe (Finite 40) (getUserXP (Some bob) d')) \<and>
   (\<exists>d'. addUserXP (Some bob) 10 (Finite 100) userDb = Inr d' \<and>
          getUserXP (Some bob) d' = Finite 140) \<and>
   getUserXP (Some alice) userDb = Finite 0 \<and>
   (\<exists>d' u. addUserXP (Some alice) 10 (Finite 100) userDb = Inr d' \<and>
           users d' (uid alice) = Some u \<and> u_totalXP u = Some (Finite 100))"
proof -
  have stored: "storedXP userDb (uid bob) = Some (Finite 40)"
    by (simp add: storedXP_def userDb_def bob_def bobDoc_def)
  then have wf: "totalIsNumber userDb (uid bob)"
    by (simp add: totalIsNumber_def small_isNumber)
  have forty: "getUserXP (Some bob) userDb = Finite (of_int 40)"
    by (simp add: getUserXP_stored stored falsy_def)
  have calls: "\<forall>call \<in> set [(10::timestamp, Finite 100), (20, Finite 0), (30, Finite (1 / 2))].
      isNumber (snd call) \<and> numberLe (Finite 0) (snd call)"
    by (simp add: small_isNumber half_isNumber)
  have nobody: "users userDb (uid alice) = None"
    by (simp add: userDb_def alice_def)
  from xp_non_decreasing [where d = userDb and user = bob and n = 40 and now = 10
      and calls = "[(10, Finite 100), (20, Finite 0), (30, Finite (1 / 2))]"] wf calls forty stored
  have grow: "\<exists>d'. addUserXPs (Some bob) [(10, Finite 100), (20, Finite 0), (30, Finite (1 / 2))]
        userDb = Inr d' \<and>
      numberLe (getUserXP (Some bob) userDb) (getUserXP (Some bob) d')"
    and hundred: "\<exists>d'. addUserXP (Some bob) 10 (Finite 100) userDb = Inr d' \<and>
      getUserXP (Some bob) d' = Finite (of_int (40 + 100))"
    by simp_all
  from xp_non_decreasing [where d = userDb and user = alice and now = 10 and calls = "[]"] nobody
  have zero: "getUserXP (Some alice) userDb = Finite 0"
    and made: "\<exists>d' u. addUserXP (Some alice) 10 (Finite 100) userDb = Inr d' \<and>
      users d' (uid alice) = Some u \<and> u_totalXP u = Some (Finite 100)"
    by blast+
  from wf forty grow hundred zero made show ?thesis
    by simp
qed

section \<open>Materializing a shared card\<close>

lemma getDocs_hasTriple:
  "getDocs (\<lambda>c. sc_vocabulary c = cc_vocabulary (rq_card q) \<and>
                 sc_definition c = cc_definition (rq_card q) \<and>
                 sc_recipientId c = rq_recipientId q) cs = getDocs (hasTriple q) cs"
  by (simp add: getDocs_def hasTriple_def)

lemma addSharedCardFromChallenge_existing:
  assumes "getDocs (hasTriple q) (sharedCards d) = doc0 # rest"
  shows "addSharedCardFromChallenge now newId q d = (fst doc0, d)"
  using assms by (simp add: addSharedCardFromChallenge_def getDocs_hasTriple)

lemma addSharedCardFromChallenge_new:
  assumes "getDocs (hasTriple q) (sharedCards d) = []"
  shows "\<exists>c d1. addSharedCardFromChallenge now newId q d = (newId, d1) \<and>
           hasTriple q c \<and> sharedCards d1 = setDoc newId c (sharedCards d) \<and>
           getDocs (hasTriple q) (sharedCards d1) = [(newId, c)]"
  using assms
  by (simp add: addSharedCardFromChallenge_def getDocs_hasTriple Let_def getDocs_setDoc
      getDocs_filter_Nil hasTriple_def)

text \<open>
  Claim C2, as stated, fails: the two calls return the same id, but when the store already
  holds two shared cards with the triple (the check is a query followed by a create, and an
  edit can make two cards alike), two of them are there afterwards, not one.
\<close>

theorem two_cards_with_triple_counterexample:
  "addSharedCardFromChallenge 40 6 appleRequest duplicateDb = (4, duplicateDb) \<and>
   addSharedCardFromChallenge 41 7 appleRequest duplicateDb = (4, duplicateDb) \<and>
   map fst (getDocs (hasTriple appleRequest) (sharedCards duplicateDb)) = [4, 5]"
  by (simp add: addSharedCardFromChallenge_def getDocs_def duplicateDb_def emptyDb_def
      appleRequest_def appleCard_def appleShared_def hasTriple_def)

text \<open>
  Claim C2, amended. Two calls in sequence with the same vocabulary, definition and
  recipient return the same card id, the second call changes nothing, and the id names a
  shared card with that triple. A card is created only when the store holds none with the
  triple: afterwards their number is 1 if it was 0 and is unchanged otherwise, so that
  exactly one exists whenever at most one existed before.
\<close>

theorem addSharedCardFromChallenge_idempotent:
  "\<exists>cardId d1 c.
     addSharedCardFromChallenge now newId challengeData d = (cardId, d1) \<and>
     addSharedCardFromChallenge now' newId' challengeData d1 = (cardId, d1) \<and>
     (cardId, c) \<in> set (sharedCards d1) \<and> hasTriple challengeData c \<and>
     length (getDocs (hasTriple challengeData) (sharedCards d1)) =
       max 1 (length (getDocs (hasTriple challengeData) (sharedCards d)))"
proof (cases "getDocs (hasTriple challengeData) (sharedCards d)")
  case Nil
  from addSharedCardFromChallenge_new [OF Nil, of now newId]
  obtain c d1 where
    first: "addSharedCardFromChallenge now newId challengeData d = (newId, d1)"
    and c: "hasTriple challengeData c" "sharedCards d1 = setDoc newId c (sharedCards d)"
    and one: "getDocs (hasTriple challengeData) (sharedCards d1) = [(newId, c)]"
    by blast
  from addSharedCardFromChallenge_existing [OF one]
  have second: "addSharedCardFromChallenge now' newId' challengeData d1 = (newId, d1)"
    by simp
  have "(newId, c) \<in> set (sharedCards d1)"
    by (simp add: c setDoc_def)
  with first second c one Nil show ?thesis
    by auto
next
  case (Cons doc0 rest)
  then have "doc0 \<in> set (getDocs (hasTriple challengeData) (sharedCards d))"
    by simp
  then have found: "(fst doc0, snd doc0) \<in> set (sharedCards d)"
    and triple: "hasTriple challengeData (snd doc0)"
    by (simp_all add: getDocs_def)
  have calls: "addSharedCardFromChallenge now newId challengeData d = (fst doc0, d)"
    "addSharedCardFromChallenge now' newId' challengeData d = (fst doc0, d)"
    by (simp_all add: addSharedCardFromChallenge_existing [OF Cons])
  have "length (getDocs (hasTriple challengeData) (sharedCards d)) =
      max 1 (length (getDocs (hasTriple challengeData) (sharedCards d)))"
    by (simp add: Cons)
  with calls found triple show ?thesis
    by blast
qed

theorem addSharedCardFromChallenge_idempotent_witness:
  "addSharedCardFromChallenge 40 6 appleRequest emptyDb = (6, sharedDb) \<and>
   addSharedCardFromChallenge 41 7 appleRequest sharedDb = (6, sharedDb) \<and>
   sharedCards sharedDb = [(6, appleShared 40)] \<and> hasTriple appleRequest (appleShared 40) \<and>
   length (getDocs (hasTriple appleRequest) (sharedCards sharedDb)) = 1"
proof -
  have first: "addSharedCardFromChallenge 40 6 appleRequest emptyDb = (6, sharedDb)"
    by (simp add: addSharedCardFromChallenge_def getDocs_def emptyDb_def appleRequest_def
        appleCard_def appleShared_def sharedDb_def setDoc_def)
  have none: "getDocs (hasTriple appleRequest) (sharedCards emptyDb) = []"
    by (simp add: getDocs_def emptyDb_def)
  have cards: "sharedCards sharedDb = [(6, appleShared 40)]"
    by (simp add: sharedDb_def emptyDb_def)
  from addSharedCardFromChallenge_idempotent [where now = 40 and newId = 6
      and challengeData = appleRequest and d = emptyDb and now' = 41 and newId' = 7]
  show ?thesis
    by (auto simp: first none cards)
qed

section \<open>Updating a card\<close>

lemma updateSharedCard_not_shared:
  assumes "getDoc (sharedCards d) cardId = None"
    and "getDocs (\<lambda>c. sc_sharedCardId c = Some cardId) (sharedCards d) = []"
  shows "updateSharedCard (Some a) now cardId updatedData d = Inr d"
  using assms by (simp add: updateSharedCard_def getCurrentUserId_def)

lemma updateCard_not_shared:
  assumes "getDoc (sharedCards d) cardId = None"
    and "getDocs (\<lambda>c. sc_sharedCardId c = Some cardId) (sharedCards d) = []"
  shows "updateCard (Some a) now cardId updatedData d = Inr d"
  using updateSharedCard_not_shared [OF assms]
  by (simp add: updateCard_def getCurrentUserId_def)

text \<open>
  Claim C6. \<open>updateCard\<close> is to try the shared-card lookup and then fall back to the
  owned one: a shared card is updated for its recipient only, an owned card for its creator
  only, and \<open>Card not found\<close> is the answer only for an id in neither collection. The
  comments of \<open>updateCard\<close> say the same (\<open>Not a shared card, trying legacy update\<close>,
  \<open>Fallback to legacy update\<close>), but the code does not do it: \<open>updateSharedCard\<close>
  returns normally for an id that is no shared card, so \<open>updateCard\<close> returns before the
  legacy update. Evaluated: Bob's call for his own card 20 succeeds and leaves the card as
  it was; an id in neither collection and a card of another user give success instead of
  an error; Alice's edit of the card shared with Bob ends in \<open>Card not found\<close>. Only
  the recipient's edit of a shared card does what the claim says.
\<close>

theorem updateCard_never_reaches_owned_card:
  "getDoc (cards legacyDb) 20 = Some pearCard \<and> lc_userId pearCard = Some (uid bob) \<and>
   getDoc (sharedCards legacyDb) 20 = None \<and>
   updateCard (Some bob) 70 20 renamePatch legacyDb = Inr legacyDb \<and>
   updateCard (Some bob) 70 21 renamePatch legacyDb = Inr legacyDb \<and>
   updateCard (Some alice) 70 20 renamePatch legacyDb = Inr legacyDb \<and>
   updateCard (Some alice) 70 6 renamePatch sharedDb = Inl CardNotFound \<and>
   updateCard (Some bob) 70 6 renamePatch sharedDb =
     Inr (sharedDb\<lparr>sharedCards :=
       [(6, (appleShared 40)\<lparr>sc_vocabulary := ''peach'', sc_updatedAt := Some 70,
               sc_lastEditedBy := Some 2, sc_lastEditedAt := Some 70\<rparr>)]\<rparr>)"
  by (simp add: updateCard_def updateSharedCard_def getCurrentUserId_def getDoc_def getDocs_def
      updateDoc_def editShared_def patched_def legacyDb_def sharedDb_def emptyDb_def
      pearCard_def appleShared_def renamePatch_def bob_def alice_def)

section \<open>Friend requests\<close>

lemma pendingRequest_query:
  "pendingRequest d fromId toId \<longleftrightarrow>
     getDocs (\<lambda>r. fr_fromUserId r = fromId \<and> fr_toUserId r = toId \<and>
                   fr_status r = RequestPending) (friendRequests d) \<noteq> []"
  by (auto simp: pendingRequest_def getDocs_def list_ex_iff filter_empty_conv)

text \<open>
  Claim C8, as stated, fails: the check looks only for a pending request from the sender to
  the receiver. Bob's request to Alice is pending; Alice's request to Bob is not refused but
  stored as a second pending request of the pair.
\<close>

theorem reverse_request_counterexample:
  "pendingRequest reverseDb (uid bob) (uid alice) \<and>
   sendFriendRequest (Some alice) 80 31 (uid bob) ''Bob'' ''bob@example.com'' reverseDb =
     (RequestSent, crossedDb) \<and>
   pendingRequest crossedDb (uid bob) (uid alice) \<and>
   pendingRequest crossedDb (uid alice) (uid bob)"
  by (simp add: sendFriendRequest_def pendingRequest_def getDocs_def setDoc_def reverseDb_def
      crossedDb_def emptyDb_def requestOf_def alice_def bob_def)

text \<open>
  Claim C8, amended. \<open>sendFriendRequest\<close> refuses (it alerts \<open>Already Sent\<close> and writes
  nothing; no error is thrown) exactly when a pending request from the sender to the
  receiver exists. In every other case, also when a request from the receiver to the
  sender is pending, it stores a new pending request from the sender to the receiver under
  the generated id and leaves the other requests as they are.
\<close>

theorem sendFriendRequest_checks_own_direction:
  "(pendingRequest d (uid user) toUserId \<longrightarrow>
      sendFriendRequest (Some user) now newId toUserId toDisplayName toEmail d = (AlreadySent, d)) \<and>
   (\<not> pendingRequest d (uid user) toUserId \<longrightarrow>
      (\<exists>d' r.
         sendFriendRequest (Some user) now newId toUserId toDisplayName toEmail d = (RequestSent, d') \<and>
         getDoc (friendRequests d') newId = Some r \<and>
         fr_fromUserId r = uid user \<and> fr_toUserId r = toUserId \<and>
         fr_status r = RequestPending \<and> fr_createdAt r = now \<and>
         pendingRequest d' (uid user) toUserId \<and>
         (\<forall>k. k \<noteq> newId \<longrightarrow> getDoc (friendRequests d') k = getDoc (friendRequests d) k)))"
proof (intro conjI impI)
  assume "pendingRequest d (uid user) toUserId"
  then show "sendFriendRequest (Some user) now newId toUserId toDisplayName toEmail d = (AlreadySent, d)"
    by (simp add: pendingRequest_query sendFriendRequest_def)
next
  assume "\<not> pendingRequest d (uid user) toUserId"
  then show "\<exists>d' r.
         sendFriendRequest (Some user) now newId toUserId toDisplayName toEmail d = (RequestSent, d') \<and>
         getDoc (friendRequests d') newId = Some r \<and>
         fr_fromUserId r = uid user \<and> fr_toUserId r = toUserId \<and>
         fr_status r = RequestPending \<and> fr_createdAt r = now \<and>
         pendingRequest d' (uid user) toUserId \<and>
         (\<forall>k. k \<noteq> newId \<longrightarrow> getDoc (friendRequests d') k = getDoc (friendRequests d) k)"
    by (simp add: pendingRequest_query sendFriendRequest_def Let_def getDoc_setDoc
        getDocs_setDoc)
qed

theorem sendFriendRequest_checks_own_direction_witness:
  "sendFriendRequest (Some bob) 90 32 (uid alice) ''Alice'' ''alice@example.com'' reverseDb =
     (AlreadySent, reverseDb) \<and>
   (\<exists>d' r. sendFriendRequest (Some alice) 80 31 (uid bob) ''Bob'' ''bob@example.com'' reverseDb =
       (RequestSent, d') \<and>
      getDoc (friendRequests d') 31 = Some r \<and> fr_fromUserId r = 1 \<and> fr_toUserId r = 2 \<and>
      fr_status r = RequestPending \<and>
      getDoc (friendRequests d') 30 = Some (requestOf bob alice 75))"
proof -
  have there: "pendingRequest reverseDb (uid bob) (uid alice)"
    and not_there: "\<not> pendingRequest reverseDb (uid alice) (uid bob)"
    by (simp_all add: pendingRequest_def reverseDb_def emptyDb_def requestOf_def alice_def bob_def)
  have old: "getDoc (friendRequests reverseDb) 30 = Some (requestOf bob alice 75)"
    by (simp add: getDoc_def reverseDb_def emptyDb_def)
  have ids: "uid alice = 1" "uid bob = 2"
    by (simp_all add: alice_def bob_def)
  from sendFriendRequest_checks_own_direction [where d = reverseDb and user = bob
      and toUserId = "uid alice" and now = 90 and newId = 32 and toDisplayName = "''Alice''"
      and toEmail = "''alice@example.com''"] there
  have refused: "sendFriendRequest (Some bob) 90 32 (uid alice) ''Alice'' ''alice@example.com''
      reverseDb = (AlreadySent, reverseDb)"
    by blast
  from sendFriendRequest_checks_own_direction [where d = reverseDb and user = alice
      and toUserId = "uid bob" and now = 80 and newId = 31 and toDisplayName = "''Bob''"
      and toEmail = "''bob@example.com''"] not_there
  obtain d' r where
    "sendFriendRequest (Some alice) 80 31 (uid bob) ''Bob'' ''bob@example.com'' reverseDb =
       (RequestSent, d')"
    "getDoc (friendRequests d') 31 = Some r" "fr_fromUserId r = uid alice"
    "fr_toUserId r = uid bob" "fr_status r = RequestPending"
    "\<forall>k. k \<noteq> 31 \<longrightarrow> getDoc (friendRequests d') k = getDoc (friendRequests reverseDb) k"
    by blast
  with refused old ids show ?thesis
    by auto
qed

section \<open>Reading a user's cards\<close>

lemma map_filter_concat:
  "List.map_filter g xs = concat (map (\<lambda>x. case g x of None \<Rightarrow> [] | Some v \<Rightarrow> [v]) xs)"
  by (induction xs) (simp_all add: List.map_filter_simps split: option.splits)

lemma getUserCards_referenced:
  "getUserCards (Some user) topicId d = referencedCards d (uid user) topicId"
proof (cases topicId)
  case None
  then show ?thesis
    by (auto simp: getUserCards_def getCurrentUserId_def referencedCards_def Let_def
        map_filter_concat getDoc_def split: option.splits intro!: arg_cong [where f = concat])
next
  case (Some t)
  then show ?thesis
    by (auto simp: getUserCards_def getCurrentUserId_def referencedCards_def Let_def
        map_filter_concat getDoc_def getDocs_def split: option.splits
        intro!: arg_cong [where f = concat])
qed

text \<open>
  Claim C5, as stated, fails: the two sources are not united. Bob holds a reference to the
  shared card 6 and has created card 20; \<open>getCards\<close> returns the referenced card only.
\<close>

theorem getCards_not_union_counterexample:
  "createdCards mixedDb (uid bob) = [legacyView 20 pearCard] \<and>
   referencedCards mixedDb (uid bob) None = [sharedView 11 refToApple (appleShared 40)] \<and>
   getCards (Some bob) None mixedDb = Inr [sharedView 11 refToApple (appleShared 40)] \<and>
   legacyView 20 pearCard \<notin> set [sharedView 11 refToApple (appleShared 40)]"
proof -
  have owner: "lc_userId pearCard = Some 2"
    by (simp add: pearCard_def)
  show ?thesis
    by (simp add: getCards_def getUserCards_def getCurrentUserId_def createdCards_def
        referencedCards_def getDoc_def getDocs_def List.map_filter_simps mixedDb_def sharedDb_def
        emptyDb_def bob_def refToApple_def legacyView_def sharedView_def owner)
qed

text \<open>
  Claim C5, amended. \<open>getCards\<close> returns the cards that the caller's ownership references
  lead to (one for every reference, of the given topic if there is a filter, whose shared
  card exists) whenever there is at least one such card. Only when there is none does it
  turn to the cards that the user created, and without a topic filter it then returns
  exactly those. The two sources are neither united nor deduplicated.
\<close>

theorem getCards_references_else_created:
  "(referencedCards d (uid user) topicId \<noteq> [] \<longrightarrow>
      getCards (Some user) topicId d = Inr (referencedCards d (uid user) topicId)) \<and>
   (referencedCards d (uid user) None = [] \<longrightarrow>
      getCards (Some user) None d = Inr (createdCards d (uid user)))"
  by (simp add: getCards_def getCurrentUserId_def getUserCards_referenced Let_def
      createdCards_def getDocs_def)

theorem getCards_references_else_created_witness:
  "referencedCards mixedDb (uid bob) None = [sharedView 11 refToApple (appleShared 40)] \<and>
   getCards (Some bob) None mixedDb = Inr [sharedView 11 refToApple (appleShared 40)] \<and>
   referencedCards mixedDb (uid alice) None = [] \<and>
   getCards (Some alice) None mixedDb = Inr [] \<and>
   referencedCards legacyDb (uid bob) None = [] \<and>
   getCards (Some bob) None legacyDb = Inr [legacyView 20 pearCard]"
proof -
  have refs: "referencedCards mixedDb (uid bob) None = [sharedView 11 refToApple (appleShared 40)]"
    "referencedCards mixedDb (uid alice) None = []"
    "referencedCards legacyDb (uid bob) None = []"
    by (simp_all add: referencedCards_def mixedDb_def sharedDb_def legacyDb_def emptyDb_def
        bob_def alice_def refToApple_def)
  have made: "createdCards mixedDb (uid alice) = []"
    "createdCards legacyDb (uid bob) = [legacyView 20 pearCard]"
    by (simp_all add: createdCards_def mixedDb_def legacyDb_def emptyDb_def bob_def alice_def
        pearCard_def)
  show ?thesis
    using getCards_references_else_created [where d = mixedDb and user = bob and topicId = None]
      getCards_references_else_created [where d = mixedDb and user = alice and topicId = None]
      getCards_references_else_created [where d = legacyDb and user = bob and topicId = None]
    by (simp add: refs made)
qed

end
